theory Spec2Isabelle
  imports Main "HOL-Library.AList"
begin

section \<open>JavaScript values\<close>

text \<open>
  Values that flow through the dispatcher: request bodies, middleware results, handler
  results and response envelopes. Numbers are the integers (status codes, counts);
  a string is the list of its code units, each below 256; an object is the list of its
  own properties in insertion order. \<open>JFun\<close> is a function value and \<open>JRes\<close> the live
  HTTP response object \<open>res\<close> when it is stored inside another object.
\<close>

datatype jsval =
    JUndefined
  | JNull
  | JBool bool
  | JNum int
  | JStr string
  | JArr "jsval list"
  | JObj "(string \<times> jsval) list"
  | JFun
  | JRes

text \<open>Truthiness, as tested by \<open>if (x)\<close>, \<open>!x\<close>, \<open>x ? a : b\<close> and \<open>x || y\<close>.\<close>

fun truthy :: "jsval \<Rightarrow> bool" where
  "truthy JUndefined = False"
| "truthy JNull = False"
| "truthy (JBool b) = b"
| "truthy (JNum n) = (n \<noteq> 0)"
| "truthy (JStr s) = (s \<noteq> [])"
| "truthy (JArr xs) = True"
| "truthy (JObj kvs) = True"
| "truthy JFun = True"
| "truthy JRes = True"

text \<open>\<open>a || b\<close>\<close>

definition js_or :: "jsval \<Rightarrow> jsval \<Rightarrow> jsval" where
  "js_or a b = (if truthy a then a else b)"

text \<open>Property read \<open>v.k\<close> of a name that no prototype defines (\<open>code\<close>, \<open>errors\<close>,
  \<open>error\<close>, \<open>selfHandleResponse\<close>), on a value that is not null or undefined.\<close>

fun js_get :: "jsval \<Rightarrow> string \<Rightarrow> jsval" where
  "js_get (JObj kvs) k = (case map_of kvs k of Some v \<Rightarrow> v | None \<Rightarrow> JUndefined)"
| "js_get v k = JUndefined"

section \<open>String operations used by the router\<close>

text \<open>\<open>s.split(c)\<close> for a one-character separator: never empty, \<open>"".split(",")\<close> is \<open>[""]\<close>.\<close>

fun split_on :: "char \<Rightarrow> string \<Rightarrow> string list" where
  "split_on c [] = [[]]"
| "split_on c (x # xs) =
     (if x = c then [] # split_on c xs
      else (case split_on c xs of
              w # ws \<Rightarrow> (x # w) # ws
            | [] \<Rightarrow> [[x]]))"

text \<open>\<open>s.trim()\<close>: the white space and line terminators below 256 are tab, line feed,
  vertical tab, form feed, carriage return, space and the no-break space U+00A0.\<close>

definition js_whitespace :: "char \<Rightarrow> bool" where
  "js_whitespace c = (of_char c \<in> {9, 10, 11, 12, 13, 32, 160 :: nat})"

definition trim :: "string \<Rightarrow> string" where
  "trim s = rev (dropWhile js_whitespace (rev (dropWhile js_whitespace s)))"

text \<open>\<open>s.startsWith(p)\<close>\<close>

definition startsWith :: "string \<Rightarrow> string \<Rightarrow> bool" where
  "startsWith s p = (take (length p) s = p)"

text \<open>\<open>s.toLowerCase()\<close> on ASCII letters.\<close>

definition lower_char :: "char \<Rightarrow> char" where
  "lower_char c =
     (case map_of (zip ''ABCDEFGHIJKLMNOPQRSTUVWXYZ'' ''abcdefghijklmnopqrstuvwxyz'') c of
        Some l \<Rightarrow> l
      | None \<Rightarrow> c)"

definition toLowerCase :: "string \<Rightarrow> string" where
  "toLowerCase s = map lower_char s"

text \<open>\<open>s.includes(p)\<close> on strings: \<open>p\<close> occurs in \<open>s\<close>.\<close>

fun occurs_in :: "string \<Rightarrow> string \<Rightarrow> bool" where
  "occurs_in p [] = (p = [])"
| "occurs_in p (x # xs) = (startsWith (x # xs) p \<or> occurs_in p xs)"

section \<open>Plain objects used as dictionaries\<close>

text \<open>
  \<open>methodMatrix\<close>, its per-module objects, \<open>mwsStack\<close> and the middleware registry are
  plain objects: \<open>o[k]\<close> finds an own property, or else a property that \<open>o\<close> inherits from
  \<open>Object.prototype\<close>. The inherited names are these twelve; the value under
  \<open>__proto__\<close> is \<open>Object.prototype\<close> itself, under \<open>constructor\<close> the function \<open>Object\<close>,
  under the others a method. All of them are truthy.
\<close>

definition object_prototype_names :: "string list" where
  "object_prototype_names =
     [''constructor'', ''__defineGetter__'', ''__defineSetter__'', ''hasOwnProperty'',
      ''__lookupGetter__'', ''__lookupSetter__'', ''isPrototypeOf'', ''propertyIsEnumerable'',
      ''toString'', ''valueOf'', ''__proto__'', ''toLocaleString'']"

datatype 'a looked_up = Own 'a | Inherited string | Absent

definition plain_get :: "(string \<times> 'a) list \<Rightarrow> string \<Rightarrow> 'a looked_up" where
  "plain_get obj k =
     (case map_of obj k of
        Some v \<Rightarrow> Own v
      | None \<Rightarrow> if k \<in> set object_prototype_names then Inherited k else Absent)"

text \<open>\<open>v.includes(x)\<close> for a string \<open>x\<close>: defined on arrays and strings; on any other value
  \<open>v.includes\<close> is not a function and the call is a \<open>TypeError\<close>, here \<open>None\<close>.\<close>

definition js_includes :: "jsval \<Rightarrow> string \<Rightarrow> bool option" where
  "js_includes v x =
     (case v of
        JArr xs \<Rightarrow> Some (JStr x \<in> set xs)
      | JStr s \<Rightarrow> Some (occurs_in x s)
      | _ \<Rightarrow> None)"

section \<open>Response dispatcher\<close>

text \<open>
  The response object \<open>res\<close> is modelled by the list of the writes made to it, oldest
  first: each \<open>res.status(c).send(o)\<close> appends one.
\<close>

record http_write =
  w_status :: jsval
  w_body :: jsval

type_synonym response = "http_write list"

text \<open>The argument object of \<open>dispatch\<close>. Every call site passes a boolean literal for
  \<open>ok\<close>; a field that a call site leaves out is \<open>JUndefined\<close>.\<close>

record dispatch_args =
  d_ok :: bool
  d_data :: jsval
  d_code :: jsval
  d_errors :: jsval
  d_message :: jsval
  d_msg :: jsval

definition no_args :: dispatch_args where
  "no_args = \<lparr>d_ok = False, d_data = JUndefined, d_code = JUndefined,
     d_errors = JUndefined, d_message = JUndefined, d_msg = JUndefined\<rparr>"

text \<open>Step 2 of \<open>dispatch\<close>: the error array.\<close>

definition error_entry :: "jsval \<Rightarrow> jsval" where
  "error_entry e = (case e of JStr s \<Rightarrow> JObj [(''message'', JStr s)] | _ \<Rightarrow> e)"

definition errorArray :: "jsval \<Rightarrow> jsval list" where
  "errorArray errors =
     (if truthy errors then
        (case errors of
           JStr s \<Rightarrow> [JObj [(''message'', JStr s)]]
         | JArr es \<Rightarrow> map error_entry es
         | JObj kvs \<Rightarrow> [errors]
         | JRes \<Rightarrow> [errors]
         | _ \<Rightarrow> [])
      else [])"

text \<open>\<open>ResponseDispatcher.dispatch(res, {ok, data, code, errors, message, msg})\<close>;
  \<open>now\<close> is the clock reading \<open>new Date().toISOString()\<close>.\<close>

definition statusCode :: "dispatch_args \<Rightarrow> jsval" where
  "statusCode a = (if truthy (d_code a) then d_code a else if d_ok a then JNum 200 else JNum 400)"

definition finalMessage :: "dispatch_args \<Rightarrow> jsval" where
  "finalMessage a =
     js_or (js_or (d_msg a) (d_message a)) (if d_ok a then JNull else JStr ''Request failed'')"

definition responseObj :: "string \<Rightarrow> dispatch_args \<Rightarrow> (string \<times> jsval) list" where
  "responseObj now a =
     [(''ok'', JBool (d_ok a)),
      (''code'', statusCode a),
      (''data'', js_or (d_data a) (JObj [])),
      (''timestamp'', JStr now)]
     @ (if length (errorArray (d_errors a)) > 0 then [(''errors'', JArr (errorArray (d_errors a)))] else [])
     @ (if finalMessage a \<noteq> JNull then [(''message'', finalMessage a)] else [])"

definition dispatch :: "string \<Rightarrow> response \<Rightarrow> dispatch_args \<Rightarrow> response" where
  "dispatch now res a = res @ [\<lparr>w_status = statusCode a, w_body = JObj (responseObj now a)\<rparr>]"

section \<open>Normalising a handler result\<close>

text \<open>The tail of \<open>onDone\<close> in \<open>ApiHandler.mw\<close>: a falsy result becomes \<open>{}\<close>, then
  \<open>selfHandleResponse\<close>, \<open>errors\<close> and \<open>error\<close> are tested in this order.\<close>

definition respond :: "string \<Rightarrow> response \<Rightarrow> jsval \<Rightarrow> response" where
  "respond now res result0 =
     (let result = (if \<not> truthy result0 then JObj [] else result0) in
      if truthy (js_get result ''selfHandleResponse'') then res
      else if truthy (js_get result ''errors'') then
        dispatch now res (no_args\<lparr>d_ok := False, d_code := js_get result ''code'',
                                   d_errors := js_get result ''errors''\<rparr>)
      else if truthy (js_get result ''error'') then
        dispatch now res (no_args\<lparr>d_ok := False, d_code := js_get result ''code'',
                                   d_message := js_get result ''error''\<rparr>)
      else
        dispatch now res (no_args\<lparr>d_ok := True, d_code := js_get result ''code'',
                                   d_data := result\<rparr>))"

text \<open>The decimal text of an array index, as a property name.\<close>

fun index_key :: "nat \<Rightarrow> string" where
  "index_key n =
     (if n < 10 then [char_of (48 + n)]
      else index_key (n div 10) @ [char_of (48 + n mod 10)])"

text \<open>The own enumerable properties that \<open>{...v}\<close> copies.\<close>

fun own_entries :: "jsval \<Rightarrow> (string \<times> jsval) list" where
  "own_entries (JObj kvs) = kvs"
| "own_entries (JArr xs) = zip (map index_key [0..<length xs]) xs"
| "own_entries (JStr s) = zip (map index_key [0..<length s]) (map (\<lambda>c. JStr [c]) s)"
| "own_entries v = []"

text \<open>\<open>{...target, ...src}\<close>: every property of \<open>src\<close> is set on the target, a later
  value replacing an earlier one under the same name.\<close>

definition spread :: "jsval \<Rightarrow> (string \<times> jsval) list \<Rightarrow> (string \<times> jsval) list" where
  "spread src target = fold (\<lambda>kv. AList.update (fst kv) (snd kv)) (own_entries src) target"

section \<open>Requests, middleware units and handler modules\<close>

record request =
  r_method :: string
  r_moduleName :: string
  r_fnName :: string
  r_body :: jsval
  r_headers :: "(string \<times> string) list"
  r_query :: "(string \<times> string) list"

text \<open>
  What a middleware unit does with \<open>{req, res, next}\<close>: it calls \<open>next(v)\<close>, or it returns
  without calling \<open>next\<close> (after writing to \<open>res\<close> or not), or it throws.
\<close>

datatype signal = Next jsval | Ended | Threw

type_synonym mw_unit = "request \<Rightarrow> response \<Rightarrow> signal \<times> response"

text \<open>A handler is an async method of a manager. It is called with one argument, which
  holds the live \<open>res\<close>: it may write to the response, and its promise resolves or
  rejects. \<open>methods\<close> gives the callable that the manager has under a name.\<close>

datatype handler_outcome = Resolved jsval | Rejected jsval

record handler_method =
  declared_params :: string
  invoke :: "jsval \<Rightarrow> response \<Rightarrow> handler_outcome \<times> response"

record manager =
  httpExposed :: "string list option"
  methods :: "(string \<times> handler_method) list"

section \<open>The token and device middleware\<close>

text \<open>\<open>TokenManager.verifyLongToken\<close> over \<open>_verifyToken\<close>: \<open>jwt_verify\<close> is the library
  call \<open>jwt.verify\<close>, \<open>None\<close> when it throws. The result is the decoded payload or null.\<close>

definition verifyLongToken :: "(string \<Rightarrow> jsval option) \<Rightarrow> string \<Rightarrow> jsval" where
  "verifyLongToken jwt_verify token =
     (if token = [] then JNull
      else (case jwt_verify token of Some decoded \<Rightarrow> decoded | None \<Rightarrow> JNull))"

text \<open>Step 1 of \<open>__token\<close>: the Authorization header, then the \<open>token\<close> header, then
  the \<open>token\<close> query parameter. \<open>None\<close> is \<open>null\<close>.\<close>

definition no_token :: "string option \<Rightarrow> bool" where
  "no_token t = (t = None \<or> t = Some [])"

definition extract_token :: "request \<Rightarrow> string option" where
  "extract_token req =
     (let token = (case map_of (r_headers req) ''authorization'' of
                     Some authHeader \<Rightarrow>
                       if authHeader \<noteq> [] \<and> startsWith authHeader ''Bearer ''
                       then Some (drop 7 authHeader) else None
                   | None \<Rightarrow> None);
          token = (if no_token token then
                     (case map_of (r_headers req) ''token'' of
                        Some t \<Rightarrow> if t \<noteq> [] then Some t else token
                      | None \<Rightarrow> token)
                   else token);
          token = (if no_token token then
                     (case map_of (r_query req) ''token'' of
                        Some t \<Rightarrow> if t \<noteq> [] then Some t else token
                      | None \<Rightarrow> token)
                   else token)
      in token)"

definition unauthorized :: "string \<Rightarrow> dispatch_args" where
  "unauthorized text = no_args\<lparr>d_ok := False, d_code := JNum 401, d_errors := JStr text\<rparr>"

definition token_error_message :: "string \<Rightarrow> string" where
  "token_error_message name =
     (if name = ''TokenExpiredError'' then ''Your token has expired. Please log in again.''
      else if name = ''JsonWebTokenError'' then ''Invalid token signature''
      else if name = ''NotBeforeError'' then ''Token not yet valid''
      else ''Invalid or expired token'')"

text \<open>The \<open>__token\<close> unit. \<open>verify\<close> is \<open>managers.token.verifyLongToken\<close>, \<open>Inl name\<close>
  when it throws an error of that name. Every failure writes a 401 envelope and returns
  without calling \<open>next\<close>. The outer \<open>catch\<close>, which answers 500, guards calls that do
  not throw here.\<close>

definition token_mw :: "string \<Rightarrow> (string \<Rightarrow> string + jsval) \<Rightarrow> mw_unit" where
  "token_mw now verify req res =
     (case extract_token req of
        None \<Rightarrow>
          (Ended, dispatch now res
             (unauthorized ''Authentication required. Please provide a valid token.''))
      | Some token \<Rightarrow>
          if token = [] then
            (Ended, dispatch now res
               (unauthorized ''Authentication required. Please provide a valid token.''))
          else
            (case verify token of
               Inr decoded \<Rightarrow>
                 if \<not> truthy decoded then
                   (Ended, dispatch now res (unauthorized ''Invalid or expired token''))
                 else (Next decoded, res)
             | Inl name \<Rightarrow>
                 (Ended, dispatch now res (unauthorized (token_error_message name)))))"

text \<open>The \<open>__device\<close> unit always continues with \<open>{ip, agent}\<close>; the two lookups are
  library calls.\<close>

definition device_mw :: "(request \<Rightarrow> jsval) \<Rightarrow> (request \<Rightarrow> jsval) \<Rightarrow> mw_unit" where
  "device_mw getClientIp lookup req res =
     (Next (JObj [(''ip'', js_or (getClientIp req) (JStr ''N/A'')),
                  (''agent'', js_or (lookup req) (JStr ''N/A''))]), res)"

section \<open>Route table construction\<close>

text \<open>The fields of \<open>ApiHandler\<close> that routing reads and writes. \<open>managers\<close> and
  \<open>mwsRepo\<close> list the properties of the two input objects in \<open>Object.keys\<close> order.
  The tables and the registry are plain objects, read with \<open>plain_get\<close>; a route key
  holds a dot and so is never an inherited name.\<close>

record api_handler =
  managers :: "(string \<times> manager) list"
  mwsRepo :: "(string \<times> mw_unit) list"
  methodMatrix :: "(string \<times> (string \<times> string list) list) list"
  mwsStack :: "(string \<times> string list) list"

text \<open>What aborts the constructor: an \<open>Error\<close> thrown with a message, a \<open>TypeError\<close> of
  the runtime, or the failure of the parameter introspector.\<close>

datatype startup_error =
    Thrown string
  | TypeError
  | IntrospectionError string string

text \<open>\<open>xs.forEach(f)\<close> where \<open>f\<close> updates the state and may throw.\<close>

fun forEach :: "('a \<Rightarrow> 's \<Rightarrow> 'e + 's) \<Rightarrow> 'a list \<Rightarrow> 's \<Rightarrow> 'e + 's" where
  "forEach f [] s = Inr s"
| "forEach f (x # xs) s = (case f x s of Inl e \<Rightarrow> Inl e | Inr s' \<Rightarrow> forEach f xs s')"

text \<open>Modelled from the spec: \<open>getParamNames\<close> (\<open>managers/api/_common/getParamNames\<close>) is
  not among the sources. The introspector yields the declared parameter names of the
  function in left-to-right order, here the comma-separated text that the caller splits,
  and signals a configuration error when the method does not exist on the module.\<close>

definition getParamNames ::
  "handler_method option \<Rightarrow> string \<Rightarrow> string \<Rightarrow> startup_error + string" where
  "getParamNames func fnName moduleName =
     (case func of
        None \<Rightarrow> Inl (IntrospectionError fnName moduleName)
      | Some f \<Rightarrow> Inr (declared_params f))"

text \<open>\<open>"verb=method"\<close> or \<open>"method"\<close>, the verb defaulting to \<open>post\<close>.\<close>

definition parse_methodDef :: "string \<Rightarrow> string \<times> string" where
  "parse_methodDef methodDef =
     (if CHR ''='' \<in> set methodDef then
        (case split_on CHR ''='' methodDef of
           httpMethod # managerMethod # rest \<Rightarrow> (httpMethod, managerMethod)
         | _ \<Rightarrow> (''post'', methodDef))
      else (''post'', methodDef))"

text \<open>\<open>param.trim()\<close>, then the first \<open>{\<close> and the first \<open>}\<close> removed.\<close>

definition clean_param :: "string \<Rightarrow> string" where
  "clean_param param = remove1 CHR ''}'' (remove1 CHR ''{'' (trim param))"

definition route_key :: "string \<Rightarrow> string \<Rightarrow> string" where
  "route_key moduleName managerMethod = moduleName @ ''.'' @ managerMethod"

text \<open>The body of \<open>params.forEach\<close>.\<close>

definition attach_mw :: "string \<Rightarrow> string \<Rightarrow> string \<Rightarrow> api_handler \<Rightarrow> startup_error + api_handler" where
  "attach_mw moduleName managerMethod param this =
     (let key = route_key moduleName managerMethod;
          this = (if map_of (mwsStack this) key = None
                  then this\<lparr>mwsStack := AList.update key [] (mwsStack this)\<rparr>
                  else this)
      in if startsWith param ''__'' then
           (if plain_get (mwsRepo this) param = Absent then
              Inl (Thrown (''Unable to find middleware '' @ param @ '' for ''
                           @ moduleName @ ''.'' @ managerMethod))
            else Inr (this\<lparr>mwsStack :=
                        AList.map_entry key (\<lambda>stack. stack @ [param]) (mwsStack this)\<rparr>))
         else Inr this)"

text \<open>\<open>methodMatrix[moduleName][httpMethod].push(managerMethod)\<close>, the list created when
  it is missing.\<close>

definition push_method ::
  "string \<Rightarrow> string \<Rightarrow> (string \<times> string list) list \<Rightarrow> (string \<times> string list) list" where
  "push_method httpMethod managerMethod moduleMatrix =
     AList.map_entry httpMethod (\<lambda>fns. fns @ [managerMethod])
       (if map_of moduleMatrix httpMethod = None
        then AList.update httpMethod [] moduleMatrix else moduleMatrix)"

text \<open>The body of the inner \<open>forEach\<close>, for one exposure declaration. A verb that is
  an inherited name is found truthy, and \<open>push\<close> is then called on a value that has no
  such method.\<close>

definition expose_method :: "string \<Rightarrow> string \<Rightarrow> api_handler \<Rightarrow> startup_error + api_handler" where
  "expose_method moduleName methodDef this =
     (case map_of (managers this) moduleName of
        None \<Rightarrow> Inl TypeError
      | Some module \<Rightarrow>
          (let httpMethod = fst (parse_methodDef methodDef);
               managerMethod = snd (parse_methodDef methodDef)
           in case map_of (methodMatrix this) moduleName of
                None \<Rightarrow> Inl TypeError
              | Some moduleMatrix \<Rightarrow>
                  (case plain_get moduleMatrix httpMethod of
                     Inherited name \<Rightarrow> Inl TypeError
                   | _ \<Rightarrow>
                       (let this = this\<lparr>methodMatrix :=
                               AList.map_entry moduleName (push_method httpMethod managerMethod)
                                 (methodMatrix this)\<rparr>
                        in case getParamNames (map_of (methods module) managerMethod)
                                  managerMethod moduleName of
                             Inl e \<Rightarrow> Inl e
                           | Inr params \<Rightarrow>
                               forEach (attach_mw moduleName managerMethod)
                                 (map clean_param (split_on CHR '','' params)) this))))"

text \<open>The body of the outer \<open>forEach\<close>, for one manager.\<close>

definition scan_manager :: "string \<Rightarrow> api_handler \<Rightarrow> startup_error + api_handler" where
  "scan_manager moduleName this =
     (case map_of (managers this) moduleName of
        None \<Rightarrow> Inl TypeError
      | Some module \<Rightarrow>
          (case httpExposed module of
             None \<Rightarrow> Inr this
           | Some defs \<Rightarrow>
               forEach (expose_method moduleName) defs
                 (this\<lparr>methodMatrix := AList.update moduleName [] (methodMatrix this)\<rparr>)))"

text \<open>The constructor, up to the end of the route scan: both tables start empty.\<close>

definition new_ApiHandler ::
  "(string \<times> manager) list \<Rightarrow> (string \<times> mw_unit) list \<Rightarrow> startup_error + api_handler" where
  "new_ApiHandler the_managers the_mwsRepo =
     forEach scan_manager (map fst the_managers)
       \<lparr>managers = the_managers, mwsRepo = the_mwsRepo, methodMatrix = [], mwsStack = []\<rparr>"

section \<open>Dispatch of one request\<close>

text \<open>Besides the writes to \<open>res\<close>, a run records which units were called and which
  handler call was made, in order.\<close>

datatype event = MwRan string | HandlerInvoked string jsval

record world =
  responses :: response
  trace :: "event list"

text \<open>\<open>_exec\<close>: the result of the handler, or \<open>{error: "<fnName> failed to execute"}\<close> when
  the call throws or the promise rejects. A missing module or method is a
  \<open>TypeError\<close> inside the \<open>try\<close>. What the handler wrote to \<open>res\<close> stays written.\<close>

definition failed_to_execute :: "string \<Rightarrow> jsval" where
  "failed_to_execute fnName = JObj [(''error'', JStr (fnName @ '' failed to execute''))]"

definition settle :: "string \<Rightarrow> handler_outcome \<Rightarrow> jsval" where
  "settle fnName outcome =
     (case outcome of Resolved result \<Rightarrow> result | Rejected err \<Rightarrow> failed_to_execute fnName)"

definition exec :: "manager option \<Rightarrow> string \<Rightarrow> jsval \<Rightarrow> world \<Rightarrow> jsval \<times> world" where
  "exec targetModule fnName data w =
     (case targetModule of
        None \<Rightarrow> (failed_to_execute fnName, w)
      | Some module \<Rightarrow>
          (case map_of (methods module) fnName of
             None \<Rightarrow> (failed_to_execute fnName, w)
           | Some f \<Rightarrow>
               (settle fnName (fst (invoke f data (responses w))),
                \<lparr>responses = snd (invoke f data (responses w)),
                 trace = trace w @ [HandlerInvoked fnName data]\<rparr>)))"

text \<open>The argument of the handler: \<open>{...body, ...results, res}\<close>.\<close>

definition handler_data :: "jsval \<Rightarrow> (string \<times> jsval) list \<Rightarrow> (string \<times> jsval) list" where
  "handler_data body results =
     AList.update ''res'' JRes (spread (JObj results) (spread body []))"

definition onDone ::
  "api_handler \<Rightarrow> string \<Rightarrow> string \<Rightarrow> string \<Rightarrow> request \<Rightarrow> (string \<times> jsval) list \<Rightarrow> world \<Rightarrow> world" where
  "onDone this now moduleName fnName req results w =
     (let body = js_or (r_body req) (JObj []);
          executed = exec (map_of (managers this) moduleName) fnName
                       (JObj (handler_data body results)) w
      in \<lparr>responses = respond now (responses (snd executed)) (fst executed),
          trace = trace (snd executed)\<rparr>)"

text \<open>Modelled from the spec: the pipeline executor (\<open>VirtualStack\<close>, \<open>createBolt\<close> and
  \<open>run\<close>) is not among the sources. Units run strictly in stack order. A unit that
  continues with a value stores it under its own name and the run advances; a unit that
  short-circuits ends the run with nothing further called; a unit that raises, or a
  name that resolves to no unit, fails the run. A run that completes hands the
  accumulated results to \<open>onDone\<close>.\<close>

datatype bolt_state = Completed "(string \<times> jsval) list" | ShortCircuited | Failed

fun run_stack ::
  "(string \<times> mw_unit) list \<Rightarrow> request \<Rightarrow> string list \<Rightarrow> (string \<times> jsval) list \<Rightarrow> world
     \<Rightarrow> bolt_state \<times> world" where
  "run_stack repo req [] results w = (Completed results, w)"
| "run_stack repo req (name # rest) results w =
     (case map_of repo name of
        None \<Rightarrow> (Failed, w)
      | Some unit \<Rightarrow>
          (case unit req (responses w) of
             (Next v, res) \<Rightarrow>
               run_stack repo req rest (AList.update name v results)
                 \<lparr>responses = res, trace = trace w @ [MwRan name]\<rparr>
           | (Ended, res) \<Rightarrow>
               (ShortCircuited, \<lparr>responses = res, trace = trace w @ [MwRan name]\<rparr>)
           | (Threw, res) \<Rightarrow>
               (Failed, \<lparr>responses = res, trace = trace w @ [MwRan name]\<rparr>)))"

text \<open>Modelled from the spec: \<open>createBolt({stack, req, res, onDone}).run()\<close>. A failed
  run is surfaced as a 500-class failure envelope and is not forwarded to \<open>onDone\<close>.\<close>

definition run_bolt ::
  "(string \<times> mw_unit) list \<Rightarrow> string \<Rightarrow> string list \<Rightarrow> request
     \<Rightarrow> (request \<Rightarrow> (string \<times> jsval) list \<Rightarrow> world \<Rightarrow> world) \<Rightarrow> world \<Rightarrow> world" where
  "run_bolt repo now stack req done w =
     (case run_stack repo req stack [] w of
        (Completed results, w') \<Rightarrow> done req results w'
      | (ShortCircuited, w') \<Rightarrow> w'
      | (Failed, w') \<Rightarrow>
          w'\<lparr>responses := dispatch now (responses w') (no_args\<lparr>d_ok := False, d_code := JNum 500\<rparr>)\<rparr>)"

definition failure :: "string \<Rightarrow> dispatch_args" where
  "failure text = no_args\<lparr>d_ok := False, d_message := JStr text\<rparr>"

text \<open>The part of \<open>ApiHandler.mw\<close> after the three route checks: the middleware stack of
  the route, then the handler. A route without a recorded stack hands \<open>undefined\<close> to
  the executor, taken here as a failed run.\<close>

definition run_route :: "api_handler \<Rightarrow> string \<Rightarrow> string \<Rightarrow> string \<Rightarrow> request \<Rightarrow> world \<Rightarrow> world" where
  "run_route this now moduleName fnName req w =
     (case map_of (mwsStack this) (route_key moduleName fnName) of
        None \<Rightarrow>
          w\<lparr>responses := dispatch now (responses w)
              (no_args\<lparr>d_ok := False, d_code := JNum 500\<rparr>)\<rparr>
      | Some targetStack \<Rightarrow>
          run_bolt (mwsRepo this) now targetStack req (onDone this now moduleName fnName) w)"

text \<open>
  \<open>ApiHandler.mw(req, res, next)\<close>. \<open>None\<close> is a call that throws, so that the promise of
  \<open>mw\<close> rejects with nothing written. The value that \<open>methodMatrix\<close> inherits under a
  name is a built-in of the runtime; \<open>builtin name k\<close> is the property \<open>k\<close> of that value.
  An inherited value found in a module's own matrix is a function or
  \<open>Object.prototype\<close>, neither of which has \<open>includes\<close>.
\<close>

definition mw ::
  "(string \<Rightarrow> string \<Rightarrow> jsval) \<Rightarrow> api_handler \<Rightarrow> string \<Rightarrow> request \<Rightarrow> world \<Rightarrow> world option" where
  "mw builtin this now req w =
     (let method = toLowerCase (r_method req);
          moduleName = r_moduleName req;
          fnName = r_fnName req;
          not_found = w\<lparr>responses := dispatch now (responses w)
                         (failure (''module '' @ moduleName @ '' not found''))\<rparr>;
          unsupported = w\<lparr>responses := dispatch now (responses w)
                           (failure (''unsupported method '' @ method @ '' for '' @ moduleName))\<rparr>;
          unable = w\<lparr>responses := dispatch now (responses w)
                      (failure (''unable to find function '' @ fnName
                                @ '' with method '' @ method))\<rparr>
      in case plain_get (methodMatrix this) moduleName of
           Absent \<Rightarrow> Some not_found
         | Inherited name \<Rightarrow>
             if \<not> truthy (builtin name method) then Some unsupported
             else (case js_includes (builtin name method) fnName of
                     None \<Rightarrow> None
                   | Some found \<Rightarrow>
                       if \<not> found then Some unable
                       else Some (run_route this now moduleName fnName req w))
         | Own moduleMatrix \<Rightarrow>
             (case plain_get moduleMatrix method of
                Absent \<Rightarrow> Some unsupported
              | Inherited name \<Rightarrow> None
              | Own fns \<Rightarrow>
                  if fnName \<notin> set fns then Some unable
                  else Some (run_route this now moduleName fnName req w)))"

section \<open>Observations and invariants used by the properties\<close>

text \<open>The property names of a value, and the names in a written envelope.\<close>

definition keys_of :: "jsval \<Rightarrow> string list" where
  "keys_of v = map fst (own_entries v)"

definition envelope_keys :: "http_write \<Rightarrow> string list" where
  "envelope_keys w = keys_of (w_body w)"

text \<open>What a handler that answers \<open>{received: data}\<close> was given, read off the envelope
  written for its result.\<close>

definition received_keys :: "http_write \<Rightarrow> string list" where
  "received_keys w = keys_of (js_get (js_get (w_body w) ''data'') ''received'')"

definition responses_of :: "world option \<Rightarrow> response" where
  "responses_of r = (case r of None \<Rightarrow> [] | Some w \<Rightarrow> responses w)"

text \<open>The arguments of the handler calls of a run, in order.\<close>

fun handler_calls :: "event list \<Rightarrow> jsval list" where
  "handler_calls [] = []"
| "handler_calls (MwRan name # es) = handler_calls es"
| "handler_calls (HandlerInvoked fnName data # es) = data # handler_calls es"

text \<open>The constructor leaves its two inputs as they were.\<close>

definition inputs_kept ::
  "(string \<times> manager) list \<Rightarrow> (string \<times> mw_unit) list \<Rightarrow> api_handler \<Rightarrow> bool" where
  "inputs_kept ms repo this = (managers this = ms \<and> mwsRepo this = repo)"

text \<open>The stack recorded under a route key, empty when there is none yet.\<close>

definition recorded_stack :: "api_handler \<Rightarrow> string \<Rightarrow> string list" where
  "recorded_stack this key = (case map_of (mwsStack this) key of None \<Rightarrow> [] | Some stack \<Rightarrow> stack)"

definition built_stacks :: "startup_error + api_handler \<Rightarrow> (string \<times> string list) list option" where
  "built_stacks r = (case r of Inl e \<Rightarrow> None | Inr this \<Rightarrow> Some (mwsStack this))"

text \<open>The marked parameters of a method, in declaration order; the marked parameters
  that one exposure declaration of a module contributes; and what all declarations of a
  module contribute to one route key, in the order of the scan.\<close>

definition marked_params :: "handler_method \<Rightarrow> string list" where
  "marked_params f =
     filter (\<lambda>param. startsWith param ''__'')
       (map clean_param (split_on CHR '','' (declared_params f)))"

definition declared_stack :: "(string \<times> manager) list \<Rightarrow> string \<Rightarrow> string \<Rightarrow> string list" where
  "declared_stack ms moduleName methodDef =
     (case map_of ms moduleName of
        None \<Rightarrow> []
      | Some module \<Rightarrow>
          (case map_of (methods module) (snd (parse_methodDef methodDef)) of
             None \<Rightarrow> []
           | Some f \<Rightarrow> marked_params f))"

definition declarations :: "(string \<times> manager) list \<Rightarrow> string \<Rightarrow> string list" where
  "declarations ms moduleName =
     (case map_of ms moduleName of
        None \<Rightarrow> []
      | Some module \<Rightarrow> (case httpExposed module of None \<Rightarrow> [] | Some defs \<Rightarrow> defs))"

definition stack_from :: "(string \<times> manager) list \<Rightarrow> string \<Rightarrow> string \<Rightarrow> string list" where
  "stack_from ms key moduleName =
     concat (map (declared_stack ms moduleName)
       (filter (\<lambda>methodDef. route_key moduleName (snd (parse_methodDef methodDef)) = key)
          (declarations ms moduleName)))"


section \<open>Sample modules, registries and requests\<close>

definition continue_with :: "jsval \<Rightarrow> mw_unit" where
  "continue_with v req res = (Next v, res)"

definition thing_manager :: manager where
  "thing_manager =
     \<lparr>httpExposed = Some [''createThing'', ''get=getThing''],
      methods =
        [(''createThing'',
            \<lparr>declared_params = ''name, __A, __B, __C'',
             invoke = (\<lambda>data res. (Resolved (JObj [(''received'', data)]), res))\<rparr>),
         (''getThing'',
            \<lparr>declared_params = ''id'',
             invoke = (\<lambda>data res. (Rejected (JStr ''stack trace''), res))\<rparr>)]\<rparr>"

definition demo_repo :: "(string \<times> mw_unit) list" where
  "demo_repo =
     [(''__A'', continue_with (JNum 1)),
      (''__B'', continue_with (JNum 2)),
      (''__C'', continue_with (JNum 3))]"

definition demo_api :: api_handler where
  "demo_api =
     \<lparr>managers = [(''thing'', thing_manager)],
      mwsRepo = demo_repo,
      methodMatrix = [(''thing'', [(''post'', [''createThing'']), (''get'', [''getThing''])])],
      mwsStack = [(''thing.createThing'', [''__A'', ''__B'', ''__C'']), (''thing.getThing'', [])]\<rparr>"

text \<open>A module that exposes one method under two verbs.\<close>

definition school_manager :: manager where
  "school_manager =
     \<lparr>httpExposed = Some [''get=listSchools'', ''post=listSchools''],
      methods =
        [(''listSchools'',
            \<lparr>declared_params = ''page, __A'',
             invoke = (\<lambda>data res. (Resolved (JArr []), res))\<rparr>)]\<rparr>"

text \<open>A module that exposes a method it does not have, and one whose method asks for a
  middleware that is not registered.\<close>

definition ghost_manager :: manager where
  "ghost_manager = \<lparr>httpExposed = Some [''get=missing''], methods = []\<rparr>"

definition audit_manager :: manager where
  "audit_manager =
     \<lparr>httpExposed = Some [''listAudits''],
      methods =
        [(''listAudits'',
            \<lparr>declared_params = ''page, __audit'',
             invoke = (\<lambda>data res. (Resolved (JArr []), res))\<rparr>)]\<rparr>"

text \<open>A module whose method declares the parameter \<open>__proto__\<close>, and a module whose
  handler answers on \<open>res\<close> itself and then throws.\<close>

definition probe_manager :: manager where
  "probe_manager =
     \<lparr>httpExposed = Some [''get=probe''],
      methods =
        [(''probe'',
            \<lparr>declared_params = ''id, __proto__'',
             invoke = (\<lambda>data res. (Resolved (JArr []), res))\<rparr>)]\<rparr>"

definition export_manager :: manager where
  "export_manager =
     \<lparr>httpExposed = Some [''get=download''],
      methods =
        [(''download'',
            \<lparr>declared_params = ''id'',
             invoke = (\<lambda>data res.
                (Rejected (JStr ''stream closed''),
                 res @ [\<lparr>w_status = JNum 200, w_body = JStr ''id,name''\<rparr>]))\<rparr>)]\<rparr>"

definition export_api :: api_handler where
  "export_api =
     \<lparr>managers = [(''export'', export_manager)],
      mwsRepo = [],
      methodMatrix = [(''export'', [(''get'', [''download''])])],
      mwsStack = [(''export.download'', [])]\<rparr>"

text \<open>Built-in values without a property of the asked name, as \<open>Object\<close> has none named
  \<open>get\<close>.\<close>

definition no_such_property :: "string \<Rightarrow> string \<Rightarrow> jsval" where
  "no_such_property name k = JUndefined"

text \<open>A registry with the two units of the repository, where no token verifies.\<close>

definition guarded_repo :: "string \<Rightarrow> (string \<times> mw_unit) list" where
  "guarded_repo now =
     [(''__device'', device_mw (\<lambda>req. JStr ''10.0.0.1'') (\<lambda>req. JUndefined)),
      (''__token'', token_mw now (\<lambda>token. Inr (verifyLongToken (\<lambda>t. None) token))),
      (''__A'', continue_with (JNum 1))]"

definition demo_request :: "string \<Rightarrow> string \<Rightarrow> string \<Rightarrow> jsval \<Rightarrow> request" where
  "demo_request verb moduleName fnName body =
     \<lparr>r_method = verb, r_moduleName = moduleName, r_fnName = fnName, r_body = body,
      r_headers = [], r_query = []\<rparr>"

definition fresh :: world where
  "fresh = \<lparr>responses = [], trace = []\<rparr>"

definition failure_envelope :: "string \<Rightarrow> string \<Rightarrow> http_write" where
  "failure_envelope now text =
     \<lparr>w_status = JNum 400,
      w_body = JObj [(''ok'', JBool False), (''code'', JNum 400), (''data'', JObj []),
                     (''timestamp'', JStr now), (''message'', JStr text)]\<rparr>"

section \<open>The constructor over an explicit store\<close>

text \<open>
  The objects that the constructor touches live in a store: the managers object and the
  registry that it is given, and the two tables that it creates. A handler holds
  references into the store. Every \<open>new ApiHandler(...)\<close> allocates its own two tables
  (\<open>this.methodMatrix = {}\<close>, \<open>this.mwsStack = {}\<close>) and then runs the scan, which
  reads and writes through the references of \<open>this\<close>.
\<close>

datatype cell =
    Managers "(string \<times> manager) list"
  | Registry "(string \<times> mw_unit) list"
  | Matrix "(string \<times> (string \<times> string list) list) list"
  | Stacks "(string \<times> string list) list"

record store =
  cells :: "nat \<Rightarrow> cell option"
  next_free :: nat

record handler_refs =
  managers_ref :: nat
  mwsRepo_ref :: nat
  methodMatrix_ref :: nat
  mwsStack_ref :: nat

definition managers_at :: "store \<Rightarrow> nat \<Rightarrow> (string \<times> manager) list" where
  "managers_at st a = (case cells st a of Some (Managers ms) \<Rightarrow> ms | _ \<Rightarrow> [])"

definition registry_at :: "store \<Rightarrow> nat \<Rightarrow> (string \<times> mw_unit) list" where
  "registry_at st a = (case cells st a of Some (Registry repo) \<Rightarrow> repo | _ \<Rightarrow> [])"

definition matrix_at :: "store \<Rightarrow> nat \<Rightarrow> (string \<times> (string \<times> string list) list) list" where
  "matrix_at st a = (case cells st a of Some (Matrix m) \<Rightarrow> m | _ \<Rightarrow> [])"

definition stacks_at :: "store \<Rightarrow> nat \<Rightarrow> (string \<times> string list) list" where
  "stacks_at st a = (case cells st a of Some (Stacks s) \<Rightarrow> s | _ \<Rightarrow> [])"

definition put :: "nat \<Rightarrow> cell \<Rightarrow> store \<Rightarrow> store" where
  "put a c st = st\<lparr>cells := (cells st)(a \<mapsto> c)\<rparr>"

definition alloc :: "cell \<Rightarrow> store \<Rightarrow> store" where
  "alloc c st = \<lparr>cells = (cells st)(next_free st \<mapsto> c), next_free = Suc (next_free st)\<rparr>"

definition attach_mw_at ::
  "handler_refs \<Rightarrow> string \<Rightarrow> string \<Rightarrow> string \<Rightarrow> store \<Rightarrow> startup_error + store" where
  "attach_mw_at this moduleName managerMethod param st =
     (let key = route_key moduleName managerMethod;
          st = (if map_of (stacks_at st (mwsStack_ref this)) key = None
                then put (mwsStack_ref this)
                       (Stacks (AList.update key [] (stacks_at st (mwsStack_ref this)))) st
                else st)
      in if startsWith param ''__'' then
           (if plain_get (registry_at st (mwsRepo_ref this)) param = Absent then
              Inl (Thrown (''Unable to find middleware '' @ param @ '' for ''
                           @ moduleName @ ''.'' @ managerMethod))
            else Inr (put (mwsStack_ref this)
                        (Stacks (AList.map_entry key (\<lambda>stack. stack @ [param])
                                   (stacks_at st (mwsStack_ref this)))) st))
         else Inr st)"

definition expose_method_at ::
  "handler_refs \<Rightarrow> string \<Rightarrow> string \<Rightarrow> store \<Rightarrow> startup_error + store" where
  "expose_method_at this moduleName methodDef st =
     (case map_of (managers_at st (managers_ref this)) moduleName of
        None \<Rightarrow> Inl TypeError
      | Some module \<Rightarrow>
          (let httpMethod = fst (parse_methodDef methodDef);
               managerMethod = snd (parse_methodDef methodDef)
           in case map_of (matrix_at st (methodMatrix_ref this)) moduleName of
                None \<Rightarrow> Inl TypeError
              | Some moduleMatrix \<Rightarrow>
                  (case plain_get moduleMatrix httpMethod of
                     Inherited name \<Rightarrow> Inl TypeError
                   | _ \<Rightarrow>
                       (let st = put (methodMatrix_ref this)
                                   (Matrix (AList.map_entry moduleName
                                      (push_method httpMethod managerMethod)
                                      (matrix_at st (methodMatrix_ref this)))) st
                        in case getParamNames (map_of (methods module) managerMethod)
                                  managerMethod moduleName of
                             Inl e \<Rightarrow> Inl e
                           | Inr params \<Rightarrow>
                               forEach (attach_mw_at this moduleName managerMethod)
                                 (map clean_param (split_on CHR '','' params)) st))))"

definition scan_manager_at :: "handler_refs \<Rightarrow> string \<Rightarrow> store \<Rightarrow> startup_error + store" where
  "scan_manager_at this moduleName st =
     (case map_of (managers_at st (managers_ref this)) moduleName of
        None \<Rightarrow> Inl TypeError
      | Some module \<Rightarrow>
          (case httpExposed module of
             None \<Rightarrow> Inr st
           | Some defs \<Rightarrow>
               forEach (expose_method_at this moduleName) defs
                 (put (methodMatrix_ref this)
                    (Matrix (AList.update moduleName [] (matrix_at st (methodMatrix_ref this))))
                    st)))"

definition construct_at :: "store \<Rightarrow> nat \<Rightarrow> nat \<Rightarrow> startup_error + handler_refs \<times> store" where
  "construct_at st the_managers the_mwsRepo =
     (let this = \<lparr>managers_ref = the_managers, mwsRepo_ref = the_mwsRepo,
                  methodMatrix_ref = next_free st, mwsStack_ref = Suc (next_free st)\<rparr>;
          st = alloc (Stacks []) (alloc (Matrix []) st)
      in case forEach (scan_manager_at this) (map fst (managers_at st the_managers)) st of
           Inl e \<Rightarrow> Inl e
         | Inr st' \<Rightarrow> Inr (this, st'))"

text \<open>The handler object that a set of references denotes in a store, the store with the
  two tables of a handler object written back, and the references that are sound.\<close>

definition load :: "handler_refs \<Rightarrow> store \<Rightarrow> api_handler" where
  "load this st =
     \<lparr>managers = managers_at st (managers_ref this),
      mwsRepo = registry_at st (mwsRepo_ref this),
      methodMatrix = matrix_at st (methodMatrix_ref this),
      mwsStack = stacks_at st (mwsStack_ref this)\<rparr>"

definition save :: "handler_refs \<Rightarrow> api_handler \<Rightarrow> store \<Rightarrow> store" where
  "save this t st =
     put (mwsStack_ref this) (Stacks (mwsStack t))
       (put (methodMatrix_ref this) (Matrix (methodMatrix t)) st)"

definition sound_refs :: "handler_refs \<Rightarrow> store \<Rightarrow> bool" where
  "sound_refs this st =
     (methodMatrix_ref this \<noteq> mwsStack_ref this \<and>
      managers_ref this \<noteq> methodMatrix_ref this \<and> managers_ref this \<noteq> mwsStack_ref this \<and>
      mwsRepo_ref this \<noteq> methodMatrix_ref this \<and> mwsRepo_ref this \<noteq> mwsStack_ref this \<and>
      cells st (methodMatrix_ref this) = Some (Matrix (matrix_at st (methodMatrix_ref this))) \<and>
      cells st (mwsStack_ref this) = Some (Stacks (stacks_at st (mwsStack_ref this))))"

text \<open>A store that holds the sample managers and registry at the addresses 0 and 1.\<close>

definition demo_store :: store where
  "demo_store =
     \<lparr>cells = [0 \<mapsto> Managers [(''thing'', thing_manager)], 1 \<mapsto> Registry demo_repo],
      next_free = 2\<rparr>"

text \<open>The result of a step on the handler object, written back to the store.\<close>

definition lift :: "handler_refs \<Rightarrow> store \<Rightarrow> startup_error + api_handler \<Rightarrow> startup_error + store" where
  "lift this st r = (case r of Inl e \<Rightarrow> Inl e | Inr t \<Rightarrow> Inr (save this t st))"

section \<open>Basic facts\<close>

lemmas dispatch_unfold = dispatch_def responseObj_def statusCode_def finalMessage_def
  js_or_def no_args_def errorArray_def

lemma differ_by_member: "x \<in> A \<Longrightarrow> x \<notin> B \<Longrightarrow> A \<noteq> B"
  by blast

lemma dispatch_failure:
  "text \<noteq> [] \<Longrightarrow> dispatch now res (failure text) = res @ [failure_envelope now text]"
  by (simp add: dispatch_unfold failure_def failure_envelope_def)

lemma respond_failed_to_execute:
  "respond now res (failed_to_execute fnName) =
     res @ [failure_envelope now (fnName @ '' failed to execute'')]"
  by (simp add: respond_def failed_to_execute_def dispatch_unfold failure_envelope_def)

lemma map_of_update_self: "map_of (AList.update k v al) k = Some v"
  by (simp add: update_conv')

lemma keys_fold_update:
  "fst ` set (fold (\<lambda>kv. AList.update (fst kv) (snd kv)) xs al) = fst ` set xs \<union> fst ` set al"
  by (induction xs arbitrary: al) (auto simp add: dom_update)

lemma map_of_fold_update:
  "map_of (fold (\<lambda>kv. AList.update (fst kv) (snd kv)) xs al) = map_of al ++ map_of (rev xs)"
  by (induction xs arbitrary: al)
     (auto simp add: update_conv' map_add_def fun_eq_iff split: option.splits)

lemma keys_results:
  "fst ` set (fold (\<lambda>name. AList.update name (val name)) stack results)
     = set stack \<union> fst ` set results"
  by (induction stack arbitrary: results) (auto simp add: dom_update)

lemma map_of_results:
  "map_of (fold (\<lambda>name. AList.update name (val name)) stack results) k =
     (if k \<in> set stack then Some (val k) else map_of results k)"
  by (induction stack arbitrary: results) (auto simp add: update_conv')

lemma distinct_results:
  "distinct (map fst results) \<Longrightarrow>
   distinct (map fst (fold (\<lambda>name. AList.update name (val name)) stack results))"
  by (induction stack arbitrary: results) (auto simp add: distinct_update)

lemma map_of_rev_distinct: "distinct (map fst xs) \<Longrightarrow> map_of (rev xs) k = map_of xs k"
proof (induction xs)
  case Nil
  then show ?case by simp
next
  case (Cons p xs)
  obtain a b where p: "p = (a, b)" by (cases p)
  from Cons.prems p have unbound: "map_of (rev xs) a = None"
    by (simp add: map_of_eq_None_iff)
  from Cons.prems have "distinct (map fst xs)" by simp
  then have ih: "map_of (rev xs) k = map_of xs k" by (rule Cons.IH)
  show ?case
    using p unbound ih by (cases "k = a") (simp_all add: map_add_def split: option.splits)
qed

lemma keys_handler_data:
  "fst ` set (handler_data body results) =
     fst ` set (own_entries body) \<union> fst ` set results \<union> {''res''}"
  by (auto simp add: handler_data_def spread_def dom_update keys_fold_update)

lemma map_of_handler_data:
  "map_of (handler_data body results) k =
     (if k = ''res'' then Some JRes
      else (case map_of (rev results) k of
              Some v \<Rightarrow> Some v
            | None \<Rightarrow> map_of (rev (own_entries body)) k))"
  by (simp add: handler_data_def spread_def update_conv' map_of_fold_update map_add_def
        split: option.splits)

section \<open>The pipeline executor\<close>

lemma run_stack_all_continue:
  assumes "\<forall>name\<in>set stack. \<exists>unit. map_of repo name = Some unit \<and>
             (\<forall>res. unit req res = (Next (val name), res))"
  shows "run_stack repo req stack results w =
           (Completed (fold (\<lambda>name. AList.update name (val name)) stack results),
            \<lparr>responses = responses w, trace = trace w @ map MwRan stack\<rparr>)"
  using assms
proof (induction stack arbitrary: results w)
  case Nil
  then show ?case by simp
next
  case (Cons name rest)
  from Cons.prems obtain unit where u: "map_of repo name = Some unit"
    "\<And>res. unit req res = (Next (val name), res)"
    by auto
  from Cons.prems have rest: "\<forall>n\<in>set rest. \<exists>unit. map_of repo n = Some unit \<and>
             (\<forall>res. unit req res = (Next (val n), res))"
    by simp
  show ?case
    using u Cons.IH [OF rest] by simp
qed

lemma run_stack_short_circuit:
  assumes pre: "\<forall>name\<in>set pre. \<exists>unit. map_of repo name = Some unit \<and>
             (\<forall>res. \<exists>v. unit req res = (Next v, res))"
    and b: "map_of repo b = Some unit_b"
    and ended: "\<forall>res. fst (unit_b req res) = Ended"
  shows "run_stack repo req (pre @ b # post) results w =
           (ShortCircuited,
            \<lparr>responses = snd (unit_b req (responses w)),
             trace = trace w @ map MwRan (pre @ [b])\<rparr>)"
  using pre
proof (induction pre arbitrary: results w)
  case Nil
  from ended have "fst (unit_b req (responses w)) = Ended" by simp
  then obtain res' where "unit_b req (responses w) = (Ended, res')"
    by (cases "unit_b req (responses w)") simp
  then show ?case using b by simp
next
  case (Cons name rest)
  from Cons.prems obtain unit where u: "map_of repo name = Some unit"
    "\<And>res. \<exists>v. unit req res = (Next v, res)"
    by auto
  from u(2) obtain v where v: "unit req (responses w) = (Next v, responses w)" by blast
  from Cons.prems have rest: "\<forall>n\<in>set rest. \<exists>unit. map_of repo n = Some unit \<and>
             (\<forall>res. \<exists>v. unit req res = (Next v, res))"
    by simp
  show ?case
    using u(1) v Cons.IH [OF rest] by simp
qed

section \<open>Invariants of the route scan\<close>

lemma forEach_invariant:
  assumes "forEach f xs s = Inr s'"
    and "I s"
    and "\<And>x t t'. I t \<Longrightarrow> f x t = Inr t' \<Longrightarrow> I t'"
  shows "I s'"
  using assms(1,2)
proof (induction xs arbitrary: s)
  case Nil
  then show ?case by simp
next
  case (Cons x xs)
  then show ?case
    by (auto split: sum.splits intro: assms(3))
qed

lemma forEach_fails:
  assumes "x \<in> set xs"
    and "I s"
    and "\<And>y t t'. I t \<Longrightarrow> f y t = Inr t' \<Longrightarrow> I t'"
    and "\<And>t. I t \<Longrightarrow> \<exists>e. f x t = Inl e"
  shows "\<exists>e. forEach f xs s = Inl e"
  using assms(1,2)
proof (induction xs arbitrary: s)
  case Nil
  then show ?case by simp
next
  case (Cons y ys)
  show ?case
  proof (cases "f y s")
    case (Inl e)
    then show ?thesis by simp
  next
    case (Inr t)
    with Cons.prems(2) have it: "I t" by (blast intro: assms(3))
    show ?thesis
    proof (cases "x = y")
      case True
      with assms(4) [OF Cons.prems(2)] Inr show ?thesis by simp
    next
      case False
      with Cons.prems(1) have "x \<in> set ys" by simp
      from Cons.IH [OF this it] Inr show ?thesis by simp
    qed
  qed
qed

lemma forEach_error_source:
  assumes "forEach f xs s = Inl e"
    and "I s"
    and "\<And>y t t'. I t \<Longrightarrow> f y t = Inr t' \<Longrightarrow> I t'"
  shows "\<exists>x\<in>set xs. \<exists>t. I t \<and> f x t = Inl e"
  using assms(1,2)
proof (induction xs arbitrary: s)
  case Nil
  then show ?case by simp
next
  case (Cons y ys)
  show ?case
  proof (cases "f y s")
    case (Inl e')
    with Cons.prems show ?thesis by auto
  next
    case (Inr t)
    with Cons.prems(2) have it: "I t" by (blast intro: assms(3))
    from Cons.prems(1) Inr have "forEach f ys t = Inl e" by simp
    from Cons.IH [OF this it] show ?thesis by auto
  qed
qed

lemma attach_mw_keeps:
  "inputs_kept ms repo this \<Longrightarrow> attach_mw moduleName managerMethod param this = Inr this'
     \<Longrightarrow> inputs_kept ms repo this'"
  by (auto simp add: attach_mw_def inputs_kept_def Let_def split: if_splits)

lemma expose_method_success:
  assumes "expose_method moduleName methodDef this = Inr this'"
  shows "\<exists>module f.
     map_of (managers this) moduleName = Some module \<and>
     map_of (methods module) (snd (parse_methodDef methodDef)) = Some f \<and>
     forEach (attach_mw moduleName (snd (parse_methodDef methodDef)))
       (map clean_param (split_on CHR '','' (declared_params f)))
       (this\<lparr>methodMatrix := AList.map_entry moduleName
           (push_method (fst (parse_methodDef methodDef)) (snd (parse_methodDef methodDef)))
           (methodMatrix this)\<rparr>) = Inr this'"
  using assms
  by (auto simp add: expose_method_def getParamNames_def Let_def
        split: option.splits sum.splits looked_up.splits)

lemma expose_method_failure:
  assumes "expose_method moduleName methodDef this = Inl (Thrown msg)"
  shows "\<exists>params.
     forEach (attach_mw moduleName (snd (parse_methodDef methodDef)))
       (map clean_param (split_on CHR '','' params))
       (this\<lparr>methodMatrix := AList.map_entry moduleName
           (push_method (fst (parse_methodDef methodDef)) (snd (parse_methodDef methodDef)))
           (methodMatrix this)\<rparr>) = Inl (Thrown msg)"
  using assms
  by (auto simp add: expose_method_def getParamNames_def Let_def
        split: option.splits sum.splits looked_up.splits)

lemma expose_method_keeps:
  assumes "inputs_kept ms repo this" and "expose_method moduleName methodDef this = Inr this'"
  shows "inputs_kept ms repo this'"
proof -
  from expose_method_success [OF assms(2)] obtain params where
    run: "forEach (attach_mw moduleName (snd (parse_methodDef methodDef)))
            (map clean_param (split_on CHR '','' params))
            (this\<lparr>methodMatrix := AList.map_entry moduleName
                (push_method (fst (parse_methodDef methodDef)) (snd (parse_methodDef methodDef)))
                (methodMatrix this)\<rparr>) = Inr this'"
    by blast
  from assms(1) have start: "inputs_kept ms repo
      (this\<lparr>methodMatrix := AList.map_entry moduleName
                (push_method (fst (parse_methodDef methodDef)) (snd (parse_methodDef methodDef)))
                (methodMatrix this)\<rparr>)"
    by (simp add: inputs_kept_def)
  show ?thesis
    by (rule forEach_invariant [where I = "inputs_kept ms repo", OF run start])
       (rule attach_mw_keeps)
qed

lemma scan_manager_keeps:
  assumes "inputs_kept ms repo this" and "scan_manager moduleName this = Inr this'"
  shows "inputs_kept ms repo this'"
proof -
  from assms(2) obtain module where m: "map_of (managers this) moduleName = Some module"
    by (auto simp add: scan_manager_def split: option.splits)
  show ?thesis
  proof (cases "httpExposed module")
    case None
    with assms m show ?thesis by (simp add: scan_manager_def)
  next
    case (Some defs)
    with assms(2) m have run: "forEach (expose_method moduleName) defs
        (this\<lparr>methodMatrix := AList.update moduleName [] (methodMatrix this)\<rparr>) = Inr this'"
      by (simp add: scan_manager_def)
    from assms(1) have start: "inputs_kept ms repo
        (this\<lparr>methodMatrix := AList.update moduleName [] (methodMatrix this)\<rparr>)"
      by (simp add: inputs_kept_def)
    show ?thesis
      by (rule forEach_invariant [where I = "inputs_kept ms repo", OF run start])
         (rule expose_method_keeps)
  qed
qed

lemma new_ApiHandler_keeps:
  assumes "new_ApiHandler ms repo = Inr this"
  shows "inputs_kept ms repo this"
proof -
  have start: "inputs_kept ms repo
      \<lparr>managers = ms, mwsRepo = repo, methodMatrix = [], mwsStack = []\<rparr>"
    by (simp add: inputs_kept_def)
  from assms have run: "forEach scan_manager (map fst ms)
      \<lparr>managers = ms, mwsRepo = repo, methodMatrix = [], mwsStack = []\<rparr> = Inr this"
    by (simp add: new_ApiHandler_def)
  show ?thesis
    by (rule forEach_invariant [where I = "inputs_kept ms repo", OF run start])
       (rule scan_manager_keeps)
qed

lemma scan_fails_when_declaration_fails:
  assumes m: "map_of ms moduleName = Some module"
    and defs: "httpExposed module = Some defs"
    and d: "methodDef \<in> set defs"
    and bad: "\<And>t. inputs_kept ms repo t \<Longrightarrow> \<exists>e. expose_method moduleName methodDef t = Inl e"
  shows "\<exists>e. new_ApiHandler ms repo = Inl e"
proof -
  have scan: "\<exists>e. scan_manager moduleName t = Inl e" if t: "inputs_kept ms repo t" for t
  proof -
    from t have start: "inputs_kept ms repo
        (t\<lparr>methodMatrix := AList.update moduleName [] (methodMatrix t)\<rparr>)"
      by (simp add: inputs_kept_def)
    have "\<exists>e. forEach (expose_method moduleName) defs
        (t\<lparr>methodMatrix := AList.update moduleName [] (methodMatrix t)\<rparr>) = Inl e"
      by (rule forEach_fails [where I = "inputs_kept ms repo", OF d start])
         (auto intro: expose_method_keeps bad)
    with t m defs show ?thesis
      by (simp add: scan_manager_def inputs_kept_def)
  qed
  from m have key: "moduleName \<in> set (map fst ms)"
    by (metis map_of_eq_None_iff option.distinct(1) set_map)
  have start: "inputs_kept ms repo
      \<lparr>managers = ms, mwsRepo = repo, methodMatrix = [], mwsStack = []\<rparr>"
    by (simp add: inputs_kept_def)
  have "\<exists>e. forEach scan_manager (map fst ms)
      \<lparr>managers = ms, mwsRepo = repo, methodMatrix = [], mwsStack = []\<rparr> = Inl e"
    by (rule forEach_fails [where I = "inputs_kept ms repo", OF key start])
       (auto intro: scan_manager_keeps scan)
  then show ?thesis by (simp add: new_ApiHandler_def)
qed

lemma attach_mw_missing:
  assumes "startsWith param ''__''" and "plain_get (mwsRepo this) param = Absent"
  shows "attach_mw moduleName managerMethod param this =
     Inl (Thrown (''Unable to find middleware '' @ param @ '' for ''
                  @ moduleName @ ''.'' @ managerMethod))"
  using assms by (simp add: attach_mw_def Let_def)

lemma attach_mw_error:
  assumes "attach_mw moduleName managerMethod param this = Inl e"
  shows "startsWith param ''__'' \<and> plain_get (mwsRepo this) param = Absent \<and>
     e = Thrown (''Unable to find middleware '' @ param @ '' for ''
                 @ moduleName @ ''.'' @ managerMethod)"
  using assms by (auto simp add: attach_mw_def Let_def split: if_splits)

lemma attach_mw_stack:
  assumes "attach_mw moduleName managerMethod param this = Inr this'"
  shows "map_of (mwsStack this') (route_key moduleName managerMethod) =
           Some (recorded_stack this (route_key moduleName managerMethod)
                 @ (if startsWith param ''__'' then [param] else []))"
  using assms
  by (auto simp add: attach_mw_def Let_def recorded_stack_def update_conv' map_of_map_entry
        split: if_splits option.splits)

lemma attach_all_stack:
  assumes "forEach (attach_mw moduleName managerMethod) params this = Inr this'"
    and "params \<noteq> []"
  shows "map_of (mwsStack this') (route_key moduleName managerMethod) =
           Some (recorded_stack this (route_key moduleName managerMethod)
                 @ filter (\<lambda>param. startsWith param ''__'') params)"
  using assms
proof (induction params arbitrary: this)
  case Nil
  then show ?case by simp
next
  case (Cons param rest)
  from Cons.prems(1) obtain t where
    step: "attach_mw moduleName managerMethod param this = Inr t"
    and run: "forEach (attach_mw moduleName managerMethod) rest t = Inr this'"
    by (auto split: sum.splits)
  note first = attach_mw_stack [OF step]
  show ?case
  proof (cases "rest = []")
    case True
    with run first show ?thesis by simp
  next
    case False
    from Cons.IH [OF run False] first show ?thesis
      by (simp add: recorded_stack_def)
  qed
qed

lemma split_on_nonempty: "split_on c s \<noteq> []"
  by (induction s) (auto split: list.splits)

text \<open>One exposure declaration appends the marked parameters of its method, in
  declaration order, to whatever the route key already holds.\<close>

lemma expose_method_appends_stack:
  assumes "expose_method moduleName methodDef this = Inr this'"
    and "map_of (managers this) moduleName = Some module"
    and "map_of (methods module) (snd (parse_methodDef methodDef)) = Some f"
  shows "map_of (mwsStack this') (route_key moduleName (snd (parse_methodDef methodDef))) =
           Some (recorded_stack this (route_key moduleName (snd (parse_methodDef methodDef)))
                 @ filter (\<lambda>param. startsWith param ''__'')
                     (map clean_param (split_on CHR '','' (declared_params f))))"
proof -
  let ?start = "this\<lparr>methodMatrix := AList.map_entry moduleName
             (push_method (fst (parse_methodDef methodDef)) (snd (parse_methodDef methodDef)))
             (methodMatrix this)\<rparr>"
  from expose_method_success [OF assms(1)] assms(2,3)
  have run: "forEach (attach_mw moduleName (snd (parse_methodDef methodDef)))
      (map clean_param (split_on CHR '','' (declared_params f))) ?start = Inr this'"
    by auto
  have ne: "map clean_param (split_on CHR '','' (declared_params f)) \<noteq> []"
    by (simp add: split_on_nonempty)
  from attach_all_stack [OF run ne] show ?thesis
    by (simp add: recorded_stack_def)
qed

lemma expose_method_thrown:
  assumes "expose_method moduleName methodDef this = Inl (Thrown msg)"
    and "inputs_kept ms repo this"
  shows "\<exists>p. startsWith p ''__'' \<and> plain_get repo p = Absent \<and>
     msg = ''Unable to find middleware '' @ p @ '' for ''
           @ moduleName @ ''.'' @ snd (parse_methodDef methodDef)"
proof -
  let ?start = "this\<lparr>methodMatrix := AList.map_entry moduleName
             (push_method (fst (parse_methodDef methodDef)) (snd (parse_methodDef methodDef)))
             (methodMatrix this)\<rparr>"
  from expose_method_failure [OF assms(1)] obtain params where
    run: "forEach (attach_mw moduleName (snd (parse_methodDef methodDef)))
            (map clean_param (split_on CHR '','' params)) ?start = Inl (Thrown msg)"
    by blast
  from assms(2) have start: "inputs_kept ms repo ?start"
    by (simp add: inputs_kept_def)
  have "\<exists>p\<in>set (map clean_param (split_on CHR '','' params)). \<exists>t. inputs_kept ms repo t \<and>
      attach_mw moduleName (snd (parse_methodDef methodDef)) p t = Inl (Thrown msg)"
    by (rule forEach_error_source [where I = "inputs_kept ms repo", OF run start])
       (rule attach_mw_keeps)
  then obtain p t where "inputs_kept ms repo t"
    and "attach_mw moduleName (snd (parse_methodDef methodDef)) p t = Inl (Thrown msg)"
    by blast
  then show ?thesis
    by (auto dest!: attach_mw_error simp add: inputs_kept_def)
qed

lemma scan_manager_thrown:
  assumes "scan_manager moduleName this = Inl (Thrown msg)"
    and "inputs_kept ms repo this"
  shows "\<exists>p d. startsWith p ''__'' \<and> plain_get repo p = Absent \<and>
     msg = ''Unable to find middleware '' @ p @ '' for ''
           @ moduleName @ ''.'' @ snd (parse_methodDef d)"
proof -
  from assms(1) obtain module defs where
    run: "forEach (expose_method moduleName) defs
        (this\<lparr>methodMatrix := AList.update moduleName [] (methodMatrix this)\<rparr>)
          = Inl (Thrown msg)"
    by (auto simp add: scan_manager_def split: option.splits)
  from assms(2) have start: "inputs_kept ms repo
      (this\<lparr>methodMatrix := AList.update moduleName [] (methodMatrix this)\<rparr>)"
    by (simp add: inputs_kept_def)
  have "\<exists>d\<in>set defs. \<exists>t. inputs_kept ms repo t \<and>
      expose_method moduleName d t = Inl (Thrown msg)"
    by (rule forEach_error_source [where I = "inputs_kept ms repo", OF run start])
       (rule expose_method_keeps)
  then obtain d t where "inputs_kept ms repo t"
    and "expose_method moduleName d t = Inl (Thrown msg)"
    by blast
  then show ?thesis
    by (blast dest: expose_method_thrown)
qed

lemma thrown_names_missing_middleware:
  assumes "new_ApiHandler ms repo = Inl (Thrown msg)"
  shows "\<exists>p m d. m \<in> set (map fst ms) \<and> startsWith p ''__'' \<and> plain_get repo p = Absent \<and>
     msg = ''Unable to find middleware '' @ p @ '' for '' @ m @ ''.'' @ snd (parse_methodDef d)"
proof -
  have start: "inputs_kept ms repo
      \<lparr>managers = ms, mwsRepo = repo, methodMatrix = [], mwsStack = []\<rparr>"
    by (simp add: inputs_kept_def)
  from assms have run: "forEach scan_manager (map fst ms)
      \<lparr>managers = ms, mwsRepo = repo, methodMatrix = [], mwsStack = []\<rparr> = Inl (Thrown msg)"
    by (simp add: new_ApiHandler_def)
  have "\<exists>m\<in>set (map fst ms). \<exists>t. inputs_kept ms repo t \<and>
      scan_manager m t = Inl (Thrown msg)"
    by (rule forEach_error_source [where I = "inputs_kept ms repo", OF run start])
       (rule scan_manager_keeps)
  then obtain m t where "m \<in> set (map fst ms)" and "inputs_kept ms repo t"
    and "scan_manager m t = Inl (Thrown msg)"
    by blast
  then show ?thesis
    by (blast dest: scan_manager_thrown)
qed


lemma attach_mw_other_key:
  assumes "attach_mw moduleName managerMethod param this = Inr this'"
    and "key \<noteq> route_key moduleName managerMethod"
  shows "map_of (mwsStack this') key = map_of (mwsStack this) key"
  using assms
  by (auto simp add: attach_mw_def Let_def update_conv' map_of_map_entry split: if_splits)

lemma attach_all_other_key:
  assumes "forEach (attach_mw moduleName managerMethod) params this = Inr this'"
    and "key \<noteq> route_key moduleName managerMethod"
  shows "map_of (mwsStack this') key = map_of (mwsStack this) key"
proof -
  have "(\<lambda>t. map_of (mwsStack t) key = map_of (mwsStack this) key) this'"
  proof (rule forEach_invariant
      [where I = "\<lambda>t. map_of (mwsStack t) key = map_of (mwsStack this) key", OF assms(1)])
    show "map_of (mwsStack this) key = map_of (mwsStack this) key" by simp
  next
    fix x t t'
    assume "map_of (mwsStack t) key = map_of (mwsStack this) key"
      and "attach_mw moduleName managerMethod x t = Inr t'"
    then show "map_of (mwsStack t') key = map_of (mwsStack this) key"
      using attach_mw_other_key [OF _ assms(2)] by simp
  qed
  then show ?thesis by simp
qed

lemma expose_method_recorded:
  assumes run: "expose_method moduleName methodDef this = Inr this'"
    and kept: "inputs_kept ms repo this"
  shows "recorded_stack this' key =
     recorded_stack this key
       @ (if route_key moduleName (snd (parse_methodDef methodDef)) = key
          then declared_stack ms moduleName methodDef else [])"
proof -
  let ?mm = "snd (parse_methodDef methodDef)"
  let ?start = "this\<lparr>methodMatrix := AList.map_entry moduleName
             (push_method (fst (parse_methodDef methodDef)) ?mm) (methodMatrix this)\<rparr>"
  from expose_method_success [OF run] kept
  obtain module f where m: "map_of ms moduleName = Some module"
    and f: "map_of (methods module) ?mm = Some f"
    and all: "forEach (attach_mw moduleName ?mm)
        (map clean_param (split_on CHR '','' (declared_params f))) ?start = Inr this'"
    by (auto simp add: inputs_kept_def)
  show ?thesis
  proof (cases "route_key moduleName ?mm = key")
    case True
    from kept m have "map_of (managers this) moduleName = Some module"
      by (simp add: inputs_kept_def)
    from expose_method_appends_stack [OF run this f] True m f show ?thesis
      by (simp add: recorded_stack_def declared_stack_def marked_params_def)
  next
    case False
    then have "key \<noteq> route_key moduleName ?mm" by blast
    from attach_all_other_key [OF all this] False show ?thesis
      by (simp add: recorded_stack_def)
  qed
qed

lemma expose_all_recorded:
  assumes "forEach (expose_method moduleName) defs this = Inr this'"
    and "inputs_kept ms repo this"
  shows "recorded_stack this' key =
     recorded_stack this key
       @ concat (map (declared_stack ms moduleName)
           (filter (\<lambda>methodDef. route_key moduleName (snd (parse_methodDef methodDef)) = key)
              defs))"
  using assms
proof (induction defs arbitrary: this)
  case Nil
  then show ?case by simp
next
  case (Cons d rest)
  from Cons.prems(1) obtain t where step: "expose_method moduleName d this = Inr t"
    and run: "forEach (expose_method moduleName) rest t = Inr this'"
    by (auto split: sum.splits)
  from expose_method_keeps [OF Cons.prems(2) step] have kept: "inputs_kept ms repo t" .
  from Cons.IH [OF run kept] expose_method_recorded [OF step Cons.prems(2), of key]
  show ?case by simp
qed

lemma scan_manager_recorded:
  assumes run: "scan_manager moduleName this = Inr this'"
    and kept: "inputs_kept ms repo this"
  shows "recorded_stack this' key = recorded_stack this key @ stack_from ms key moduleName"
proof -
  from run kept obtain module where m: "map_of ms moduleName = Some module"
    by (auto simp add: scan_manager_def inputs_kept_def split: option.splits)
  show ?thesis
  proof (cases "httpExposed module")
    case None
    with run kept m show ?thesis
      by (simp add: scan_manager_def inputs_kept_def stack_from_def declarations_def)
  next
    case (Some defs)
    let ?start = "this\<lparr>methodMatrix := AList.update moduleName [] (methodMatrix this)\<rparr>"
    from run kept m Some have all: "forEach (expose_method moduleName) defs ?start = Inr this'"
      by (simp add: scan_manager_def inputs_kept_def)
    from kept have start: "inputs_kept ms repo ?start"
      by (simp add: inputs_kept_def)
    from expose_all_recorded [OF all start, of key] m Some show ?thesis
      by (simp add: stack_from_def declarations_def recorded_stack_def)
  qed
qed

lemma scan_all_recorded:
  assumes "forEach scan_manager names this = Inr this'"
    and "inputs_kept ms repo this"
  shows "recorded_stack this' key =
     recorded_stack this key @ concat (map (stack_from ms key) names)"
  using assms
proof (induction names arbitrary: this)
  case Nil
  then show ?case by simp
next
  case (Cons n rest)
  from Cons.prems(1) obtain t where step: "scan_manager n this = Inr t"
    and run: "forEach scan_manager rest t = Inr this'"
    by (auto split: sum.splits)
  from scan_manager_keeps [OF Cons.prems(2) step] have kept: "inputs_kept ms repo t" .
  from Cons.IH [OF run kept] scan_manager_recorded [OF step Cons.prems(2), of key]
  show ?case by simp
qed

text \<open>The stack that the constructor records under a route key is the concatenation, in
  the order of the scan, of the marked parameters of every exposure declaration that has
  this key.\<close>

lemma recorded_stack_characterised:
  assumes "new_ApiHandler ms repo = Inr this"
  shows "recorded_stack this key = concat (map (stack_from ms key) (map fst ms))"
proof -
  let ?init = "\<lparr>managers = ms, mwsRepo = repo, methodMatrix = [], mwsStack = []\<rparr>"
  have start: "inputs_kept ms repo ?init"
    by (simp add: inputs_kept_def)
  from assms have run: "forEach scan_manager (map fst ms) ?init = Inr this"
    by (simp add: new_ApiHandler_def)
  from scan_all_recorded [OF run start, of key] show ?thesis
    by (simp add: recorded_stack_def)
qed

text \<open>For a module scanned once whose declarations give a route key to one of them
  only, the recorded stack is the list of the marked parameters of that method.\<close>

lemma recorded_stack_single_declaration:
  assumes built: "new_ApiHandler [(moduleName, module)] repo = Inr this"
    and defs: "httpExposed module = Some defs"
    and one: "filter (\<lambda>d. route_key moduleName (snd (parse_methodDef d))
                = route_key moduleName (snd (parse_methodDef methodDef))) defs = [methodDef]"
    and f: "map_of (methods module) (snd (parse_methodDef methodDef)) = Some f"
  shows "recorded_stack this (route_key moduleName (snd (parse_methodDef methodDef)))
           = marked_params f"
  using recorded_stack_characterised [OF built,
      of "route_key moduleName (snd (parse_methodDef methodDef))"] defs one f
  by (simp add: stack_from_def declarations_def declared_stack_def)


lemmas build_unfold = new_ApiHandler_def scan_manager_def expose_method_def
  parse_methodDef_def getParamNames_def clean_param_def trim_def js_whitespace_def
  attach_mw_def route_key_def startsWith_def push_method_def plain_get_def
  object_prototype_names_def Let_def

lemma demo_api_built: "new_ApiHandler [(''thing'', thing_manager)] demo_repo = Inr demo_api"
  by (simp add: build_unfold thing_manager_def demo_repo_def demo_api_def)

section \<open>Properties of the dispatcher\<close>

lemma plain_get_own: "map_of obj k = Some v \<Longrightarrow> plain_get obj k = Own v"
  by (simp add: plain_get_def)

text \<open>A request whose module name is neither registered nor inherited, whose verb is
  neither listed nor inherited, or whose function is not listed under the verb, gets one
  failure envelope; no unit runs and no handler is invoked.\<close>

lemma unregistered_route_rejected:
  "(plain_get (methodMatrix this) (r_moduleName req) = Absent \<longrightarrow>
      mw builtin this now req w =
        Some \<lparr>responses = responses w @
           [failure_envelope now (''module '' @ r_moduleName req @ '' not found'')],
         trace = trace w\<rparr>)
   \<and> (\<forall>moduleMatrix.
        plain_get (methodMatrix this) (r_moduleName req) = Own moduleMatrix \<and>
        plain_get moduleMatrix (toLowerCase (r_method req)) = Absent \<longrightarrow>
      mw builtin this now req w =
        Some \<lparr>responses = responses w @
           [failure_envelope now (''unsupported method '' @ toLowerCase (r_method req)
                                  @ '' for '' @ r_moduleName req)],
         trace = trace w\<rparr>)
   \<and> (\<forall>moduleMatrix fns.
        plain_get (methodMatrix this) (r_moduleName req) = Own moduleMatrix \<and>
        plain_get moduleMatrix (toLowerCase (r_method req)) = Own fns \<and>
        r_fnName req \<notin> set fns \<longrightarrow>
      mw builtin this now req w =
        Some \<lparr>responses = responses w @
           [failure_envelope now (''unable to find function '' @ r_fnName req
                                  @ '' with method '' @ toLowerCase (r_method req))],
         trace = trace w\<rparr>)"
  by (simp add: mw_def Let_def dispatch_failure)

text \<open>
  C1 at the request \<open>GET /api/constructor/x\<close>: no module \<open>constructor\<close> is registered, yet
  the lookup in the method matrix finds the inherited \<open>Object\<close>, which has no property
  \<open>get\<close>, and the answer is \<open>unsupported method get for constructor\<close>, not
  \<open>module constructor not found\<close>.
\<close>

theorem inherited_module_name_passes:
  assumes "builtin ''constructor'' ''get'' = JUndefined"
  shows "map_of (methodMatrix demo_api) ''constructor'' = None
     \<and> mw builtin demo_api now (demo_request ''GET'' ''constructor'' ''x'' JUndefined) fresh =
         Some \<lparr>responses = [failure_envelope now ''unsupported method get for constructor''],
               trace = []\<rparr>
     \<and> mw builtin demo_api now (demo_request ''GET'' ''constructor'' ''x'' JUndefined) fresh \<noteq>
         Some \<lparr>responses = [failure_envelope now ''module constructor not found''],
               trace = []\<rparr>"
  using assms
  by (simp add: mw_def Let_def dispatch_failure plain_get_def object_prototype_names_def
        demo_api_def demo_request_def fresh_def toLowerCase_def lower_char_def
        failure_envelope_def)

theorem inherited_module_name_passes_witness:
  "mw no_such_property demo_api ''2026-02-25T12:00:00.000Z''
      (demo_request ''GET'' ''constructor'' ''x'' JUndefined) fresh =
     Some \<lparr>responses = [failure_envelope ''2026-02-25T12:00:00.000Z''
                           ''unsupported method get for constructor''],
           trace = []\<rparr>"
proof -
  have h: "no_such_property ''constructor'' ''get'' = JUndefined"
    by (simp add: no_such_property_def)
  from inherited_module_name_passes
         [where builtin = no_such_property and now = "''2026-02-25T12:00:00.000Z''", OF h]
  show ?thesis by blast
qed

text \<open>
  C2 (as amended). For a request that resolves to a route whose middleware units all
  continue, the units run in stack order, then the handler is invoked exactly once, on
  the argument \<open>{...body, ...results, res}\<close>, and the response is what the handler wrote
  followed by the envelope of its outcome. That argument has exactly the names of the
  request body, the names of the stack and the name \<open>res\<close>; each middleware name is bound
  to the value its unit passed on, also when the body has a field of that name, every
  other name but \<open>res\<close> keeps the value of the body, and \<open>res\<close> is the response object.
\<close>

theorem pipeline_then_handler:
  assumes "map_of (methodMatrix this) (r_moduleName req) = Some moduleMatrix"
    and "map_of moduleMatrix (toLowerCase (r_method req)) = Some fns"
    and "r_fnName req \<in> set fns"
    and "map_of (mwsStack this) (route_key (r_moduleName req) (r_fnName req)) = Some stack"
    and "map_of (managers this) (r_moduleName req) = Some module"
    and "map_of (methods module) (r_fnName req) = Some f"
    and "\<forall>name\<in>set stack. \<exists>unit. map_of (mwsRepo this) name = Some unit \<and>
           (\<forall>res. unit req res = (Next (val name), res))"
  shows "\<exists>args.
       args = handler_data (js_or (r_body req) (JObj []))
                (fold (\<lambda>name. AList.update name (val name)) stack [])
     \<and> mw builtin this now req w =
         Some \<lparr>responses =
                 respond now (snd (invoke f (JObj args) (responses w)))
                   (settle (r_fnName req) (fst (invoke f (JObj args) (responses w)))),
               trace = trace w @ map MwRan stack
                       @ [HandlerInvoked (r_fnName req) (JObj args)]\<rparr>
     \<and> fst ` set args =
         fst ` set (own_entries (js_or (r_body req) (JObj []))) \<union> set stack \<union> {''res''}
     \<and> (\<forall>k\<in>set stack. k \<noteq> ''res'' \<longrightarrow> map_of args k = Some (val k))
     \<and> (\<forall>k. k \<notin> set stack \<and> k \<noteq> ''res'' \<longrightarrow>
            map_of args k = map_of (rev (own_entries (js_or (r_body req) (JObj [])))) k)
     \<and> map_of args ''res'' = Some JRes"
proof -
  let ?results = "fold (\<lambda>name. AList.update name (val name)) stack []"
  let ?body = "js_or (r_body req) (JObj [])"
  let ?args = "handler_data ?body ?results"
  have run: "run_stack (mwsRepo this) req stack [] w =
      (Completed ?results, \<lparr>responses = responses w, trace = trace w @ map MwRan stack\<rparr>)"
    by (rule run_stack_all_continue [OF assms(7)])
  have "mw builtin this now req w =
      Some (onDone this now (r_moduleName req) (r_fnName req) req ?results
        \<lparr>responses = responses w, trace = trace w @ map MwRan stack\<rparr>)"
    using plain_get_own [OF assms(1)] plain_get_own [OF assms(2)] assms(3,4) run
    by (simp add: mw_def Let_def run_route_def run_bolt_def)
  then have tr: "mw builtin this now req w =
      Some \<lparr>responses =
              respond now (snd (invoke f (JObj ?args) (responses w)))
                (settle (r_fnName req) (fst (invoke f (JObj ?args) (responses w)))),
            trace = trace w @ map MwRan stack
                    @ [HandlerInvoked (r_fnName req) (JObj ?args)]\<rparr>"
    using assms(5,6) by (simp add: onDone_def exec_def Let_def)
  have keys: "fst ` set ?args = fst ` set (own_entries ?body) \<union> set stack \<union> {''res''}"
    by (simp add: keys_handler_data keys_results)
  have d: "distinct (map fst ?results)"
    by (rule distinct_results) simp
  have look: "map_of (rev ?results) k = (if k \<in> set stack then Some (val k) else None)" for k
    by (simp add: map_of_rev_distinct [OF d] map_of_results)
  have over: "\<forall>k\<in>set stack. k \<noteq> ''res'' \<longrightarrow> map_of ?args k = Some (val k)"
    by (simp add: map_of_handler_data look)
  have rest: "\<forall>k. k \<notin> set stack \<and> k \<noteq> ''res'' \<longrightarrow>
      map_of ?args k = map_of (rev (own_entries ?body)) k"
    by (simp add: map_of_handler_data look)
  have res: "map_of ?args ''res'' = Some JRes"
    by (simp add: map_of_handler_data)
  from tr keys over rest res show ?thesis by blast
qed

theorem pipeline_then_handler_witness:
  "mw no_such_property demo_api ''2026-02-25T12:00:00.000Z''
      (demo_request ''POST'' ''thing'' ''createThing'' (JObj [(''name'', JStr ''Foo'')])) fresh =
     Some \<lparr>responses =
        [\<lparr>w_status = JNum 200,
          w_body = JObj [(''ok'', JBool True), (''code'', JNum 200),
            (''data'', JObj [(''received'',
               JObj [(''name'', JStr ''Foo''), (''__A'', JNum 1), (''__B'', JNum 2),
                     (''__C'', JNum 3), (''res'', JRes)])]),
            (''timestamp'', JStr ''2026-02-25T12:00:00.000Z'')]\<rparr>],
       trace =
        [MwRan ''__A'', MwRan ''__B'', MwRan ''__C'',
         HandlerInvoked ''createThing''
           (JObj [(''name'', JStr ''Foo''), (''__A'', JNum 1), (''__B'', JNum 2),
                  (''__C'', JNum 3), (''res'', JRes)])]\<rparr>"
proof -
  let ?req = "demo_request ''POST'' ''thing'' ''createThing'' (JObj [(''name'', JStr ''Foo'')])"
  let ?val = "\<lambda>name. if name = ''__A'' then JNum 1 else if name = ''__B'' then JNum 2 else JNum 3"
  let ?f = "\<lparr>declared_params = ''name, __A, __B, __C'',
            invoke = (\<lambda>data res. (Resolved (JObj [(''received'', data)]), res))\<rparr>"
  have h1: "map_of (methodMatrix demo_api) (r_moduleName ?req) =
      Some [(''post'', [''createThing'']), (''get'', [''getThing''])]"
    by (simp add: demo_api_def demo_request_def)
  have h2: "map_of [(''post'', [''createThing'']), (''get'', [''getThing''])]
      (toLowerCase (r_method ?req)) = Some [''createThing'']"
    by (simp add: demo_request_def toLowerCase_def lower_char_def)
  have h3: "r_fnName ?req \<in> set [''createThing'']"
    by (simp add: demo_request_def)
  have h4: "map_of (mwsStack demo_api) (route_key (r_moduleName ?req) (r_fnName ?req)) =
      Some [''__A'', ''__B'', ''__C'']"
    by (simp add: demo_api_def demo_request_def route_key_def)
  have h5: "map_of (managers demo_api) (r_moduleName ?req) = Some thing_manager"
    by (simp add: demo_api_def demo_request_def)
  have h6: "map_of (methods thing_manager) (r_fnName ?req) = Some ?f"
    by (simp add: thing_manager_def demo_request_def)
  have h7: "\<forall>name\<in>set [''__A'', ''__B'', ''__C''].
      \<exists>unit. map_of (mwsRepo demo_api) name = Some unit \<and>
        (\<forall>res. unit ?req res = (Next (?val name), res))"
    by (simp add: demo_api_def demo_repo_def continue_with_def)
  let ?args = "handler_data (js_or (r_body ?req) (JObj []))
      (fold (\<lambda>name. AList.update name (?val name)) [''__A'', ''__B'', ''__C''] [])"
  from pipeline_then_handler [OF h1 h2 h3 h4 h5 h6 h7,
      where builtin = no_such_property and now = "''2026-02-25T12:00:00.000Z''" and w = fresh]
  have "mw no_such_property demo_api ''2026-02-25T12:00:00.000Z'' ?req fresh =
      Some \<lparr>responses =
              respond ''2026-02-25T12:00:00.000Z'' (snd (invoke ?f (JObj ?args) (responses fresh)))
                (settle (r_fnName ?req) (fst (invoke ?f (JObj ?args) (responses fresh)))),
            trace = trace fresh @ map MwRan [''__A'', ''__B'', ''__C'']
                    @ [HandlerInvoked (r_fnName ?req) (JObj ?args)]\<rparr>"
    by blast
  then show ?thesis
    by (simp add: fresh_def demo_request_def handler_data_def spread_def js_or_def settle_def
          respond_def dispatch_unfold)
qed

text \<open>
  C2 fails as stated: for the body \<open>{name: "Foo"}\<close> and the stack \<open>[__A, __B, __C]\<close> the
  handler, which answers with what it received, was given the names
  \<open>name, __A, __B, __C, res\<close>, which are not exactly the names of the body and of the
  stack.
\<close>

lemmas run_unfold = mw_def run_route_def run_bolt_def onDone_def exec_def settle_def
  handler_data_def spread_def route_key_def toLowerCase_def lower_char_def js_or_def
  continue_with_def plain_get_def Let_def

theorem pipeline_keys_counterexample:
  "map received_keys (responses_of (mw no_such_property demo_api ''2026-02-25T12:00:00.000Z''
      (demo_request ''POST'' ''thing'' ''createThing'' (JObj [(''name'', JStr ''Foo'')])) fresh))
     = [[''name'', ''__A'', ''__B'', ''__C'', ''res'']]
   \<and> set (concat (map received_keys (responses_of (mw no_such_property demo_api
      ''2026-02-25T12:00:00.000Z''
      (demo_request ''POST'' ''thing'' ''createThing'' (JObj [(''name'', JStr ''Foo'')])) fresh))))
     \<noteq> set (keys_of (JObj [(''name'', JStr ''Foo'')])) \<union> {''__A'', ''__B'', ''__C''}"
proof -
  have calls: "map received_keys (responses_of (mw no_such_property demo_api
      ''2026-02-25T12:00:00.000Z''
      (demo_request ''POST'' ''thing'' ''createThing'' (JObj [(''name'', JStr ''Foo'')])) fresh))
     = [[''name'', ''__A'', ''__B'', ''__C'', ''res'']]"
    by (simp add: run_unfold demo_api_def demo_repo_def demo_request_def fresh_def
          thing_manager_def keys_of_def received_keys_def responses_of_def respond_def
          dispatch_unfold)
  have a: "''res'' \<in> set (concat [[''name'', ''__A'', ''__B'', ''__C'', ''res'']])"
    by simp
  have b: "''res'' \<notin> set (keys_of (JObj [(''name'', JStr ''Foo'')])) \<union> {''__A'', ''__B'', ''__C''}"
    by (simp add: keys_of_def)
  show ?thesis
    unfolding calls using differ_by_member [OF a b] by (intro conjI refl)
qed

text \<open>
  C3. When the units before \<open>b\<close> in a stack continue and \<open>b\<close> ends the run by itself,
  the run stops at \<open>b\<close>: the units after \<open>b\<close> are not called, the continuation
  \<open>onDone\<close> is not called whatever it is, so the handler is not invoked, and the
  response holds what \<open>b\<close> wrote to it and nothing more. The same holds for the whole
  dispatch of a request that resolves to such a stack.
\<close>

theorem short_circuit_halts:
  assumes "\<forall>name\<in>set pre. \<exists>unit. map_of repo name = Some unit \<and>
             (\<forall>res. \<exists>v. unit req res = (Next v, res))"
    and "map_of repo b = Some unit_b"
    and "\<forall>res. fst (unit_b req res) = Ended"
  shows "run_bolt repo now (pre @ b # post) req done w =
           \<lparr>responses = snd (unit_b req (responses w)),
            trace = trace w @ map MwRan (pre @ [b])\<rparr>
     \<and> (\<forall>this moduleMatrix fns.
           mwsRepo this = repo \<and>
           map_of (methodMatrix this) (r_moduleName req) = Some moduleMatrix \<and>
           map_of moduleMatrix (toLowerCase (r_method req)) = Some fns \<and>
           r_fnName req \<in> set fns \<and>
           map_of (mwsStack this) (route_key (r_moduleName req) (r_fnName req))
             = Some (pre @ b # post) \<longrightarrow>
           mw builtin this now req w =
             Some \<lparr>responses = snd (unit_b req (responses w)),
                   trace = trace w @ map MwRan (pre @ [b])\<rparr>)"
  using run_stack_short_circuit [OF assms]
  by (auto simp add: run_bolt_def run_route_def mw_def Let_def plain_get_own)

theorem short_circuit_halts_witness:
  "run_bolt (guarded_repo ''2026-02-25T12:00:00.000Z'') ''2026-02-25T12:00:00.000Z''
      [''__device'', ''__token'', ''__A'']
      (demo_request ''GET'' ''user'' ''getUserById'' JUndefined)
      (onDone demo_api ''2026-02-25T12:00:00.000Z'' ''thing'' ''createThing'') fresh =
     \<lparr>responses =
        [\<lparr>w_status = JNum 401,
          w_body = JObj [(''ok'', JBool False), (''code'', JNum 401), (''data'', JObj []),
                         (''timestamp'', JStr ''2026-02-25T12:00:00.000Z''),
                         (''errors'', JArr [JObj [(''message'',
                            JStr ''Authentication required. Please provide a valid token.'')]]),
                         (''message'', JStr ''Request failed'')]\<rparr>],
      trace = [MwRan ''__device'', MwRan ''__token'']\<rparr>"
proof -
  let ?now = "''2026-02-25T12:00:00.000Z''"
  let ?req = "demo_request ''GET'' ''user'' ''getUserById'' JUndefined"
  let ?token = "token_mw ?now (\<lambda>token. Inr (verifyLongToken (\<lambda>t. None) token))"
  have h1: "\<forall>name\<in>set [''__device'']. \<exists>unit. map_of (guarded_repo ?now) name = Some unit \<and>
      (\<forall>res. \<exists>v. unit ?req res = (Next v, res))"
    by (simp add: guarded_repo_def device_mw_def)
  have h2: "map_of (guarded_repo ?now) ''__token'' = Some ?token"
    by (simp add: guarded_repo_def)
  have h3: "\<forall>res. fst (?token ?req res) = Ended"
    by (simp add: token_mw_def extract_token_def demo_request_def no_token_def Let_def)
  have "run_bolt (guarded_repo ?now) ?now ([''__device''] @ ''__token'' # [''__A'']) ?req
      (onDone demo_api ?now ''thing'' ''createThing'') fresh =
       \<lparr>responses = snd (?token ?req (responses fresh)),
        trace = trace fresh @ map MwRan ([''__device''] @ [''__token''])\<rparr>"
    using short_circuit_halts [OF h1 h2 h3] by blast
  then show ?thesis
    by (simp add: fresh_def token_mw_def extract_token_def demo_request_def no_token_def
          unauthorized_def dispatch_unfold Let_def)
qed

text \<open>
  C5 (as amended). A falsy handler result counts as \<open>{}\<close>. If \<open>selfHandleResponse\<close> is
  truthy nothing is written. Else if \<open>errors\<close> is truthy the envelope is
  \<open>{ok: false, code, data: {}, timestamp, errors, message: "Request failed"}\<close>, with
  \<open>code\<close> the code of the result when truthy and 400 otherwise, and with the \<open>errors\<close>
  entry left out when the normalised list is empty. Else if \<open>error\<close> is truthy the
  envelope is \<open>{ok: false, code, data: {}, timestamp, message: error}\<close>. Otherwise it is
  \<open>{ok: true, code, data: result, timestamp}\<close> with 200 as the default code. The result
  \<open>{errors: ["x"]}\<close> yields
  \<open>{ok: false, code: 400, data: {}, timestamp, errors: [{message: "x"}], message: "Request failed"}\<close>.
\<close>

theorem respond_precedence:
  "respond now res r =
    (let result = (if truthy r then r else JObj []);
         code = js_get result ''code'';
         errs = errorArray (js_get result ''errors'')
     in
     if truthy (js_get result ''selfHandleResponse'') then res
     else if truthy (js_get result ''errors'') then
       res @ [\<lparr>w_status = (if truthy code then code else JNum 400),
               w_body = JObj ([(''ok'', JBool False),
                               (''code'', if truthy code then code else JNum 400),
                               (''data'', JObj []),
                               (''timestamp'', JStr now)]
                              @ (if errs = [] then [] else [(''errors'', JArr errs)])
                              @ [(''message'', JStr ''Request failed'')])\<rparr>]
     else if truthy (js_get result ''error'') then
       res @ [\<lparr>w_status = (if truthy code then code else JNum 400),
               w_body = JObj [(''ok'', JBool False),
                              (''code'', if truthy code then code else JNum 400),
                              (''data'', JObj []),
                              (''timestamp'', JStr now),
                              (''message'', js_get result ''error'')]\<rparr>]
     else
       res @ [\<lparr>w_status = (if truthy code then code else JNum 200),
               w_body = JObj [(''ok'', JBool True),
                              (''code'', if truthy code then code else JNum 200),
                              (''data'', result),
                              (''timestamp'', JStr now)]\<rparr>])
   \<and> respond now res (JObj [(''errors'', JArr [JStr ''x''])]) =
       res @ [\<lparr>w_status = JNum 400,
               w_body = JObj [(''ok'', JBool False), (''code'', JNum 400), (''data'', JObj []),
                              (''timestamp'', JStr now),
                              (''errors'', JArr [JObj [(''message'', JStr ''x'')]]),
                              (''message'', JStr ''Request failed'')]\<rparr>]"
  by (simp add: respond_def dispatch_unfold Let_def error_entry_def)

theorem respond_precedence_witness:
  "respond ''2026-02-25T12:00:00.000Z'' [] (JObj [(''id'', JNum 7)]) =
     [\<lparr>w_status = JNum 200,
       w_body = JObj [(''ok'', JBool True), (''code'', JNum 200),
                      (''data'', JObj [(''id'', JNum 7)]),
                      (''timestamp'', JStr ''2026-02-25T12:00:00.000Z'')]\<rparr>]
   \<and> respond ''2026-02-25T12:00:00.000Z'' []
        (JObj [(''selfHandleResponse'', JBool True), (''errors'', JStr ''late'')]) = []
   \<and> respond ''2026-02-25T12:00:00.000Z'' []
        (JObj [(''error'', JStr ''School not found''), (''code'', JNum 404)]) =
     [\<lparr>w_status = JNum 404,
       w_body = JObj [(''ok'', JBool False), (''code'', JNum 404), (''data'', JObj []),
                      (''timestamp'', JStr ''2026-02-25T12:00:00.000Z''),
                      (''message'', JStr ''School not found'')]\<rparr>]"
  using
    respond_precedence [of "''2026-02-25T12:00:00.000Z''" "[]" "JObj [(''id'', JNum 7)]"]
    respond_precedence [of "''2026-02-25T12:00:00.000Z''" "[]"
      "JObj [(''selfHandleResponse'', JBool True), (''errors'', JStr ''late'')]"]
    respond_precedence [of "''2026-02-25T12:00:00.000Z''" "[]"
      "JObj [(''error'', JStr ''School not found''), (''code'', JNum 404)]"]
  by (simp add: Let_def)

text \<open>
  C5 fails as stated: the envelope written for the result \<open>{errors: ["x"]}\<close> has the
  names \<open>ok, code, data, timestamp, errors, message\<close>, not exactly
  \<open>ok, code, errors, timestamp\<close>.
\<close>

theorem respond_errors_counterexample:
  "map envelope_keys
      (respond ''2026-02-25T12:00:00.000Z'' [] (JObj [(''errors'', JArr [JStr ''x''])]))
     = [[''ok'', ''code'', ''data'', ''timestamp'', ''errors'', ''message'']]
   \<and> set (concat (map envelope_keys
          (respond ''2026-02-25T12:00:00.000Z'' [] (JObj [(''errors'', JArr [JStr ''x''])]))))
     \<noteq> {''ok'', ''code'', ''errors'', ''timestamp''}"
proof -
  have keys: "map envelope_keys
      (respond ''2026-02-25T12:00:00.000Z'' [] (JObj [(''errors'', JArr [JStr ''x''])]))
     = [[''ok'', ''code'', ''data'', ''timestamp'', ''errors'', ''message'']]"
    by (simp add: respond_def dispatch_unfold Let_def error_entry_def envelope_keys_def
          keys_of_def)
  have a: "''data'' \<in> set (concat [[''ok'', ''code'', ''data'', ''timestamp'', ''errors'', ''message'']])"
    by simp
  have b: "''data'' \<notin> {''ok'', ''code'', ''errors'', ''timestamp''}"
    by simp
  show ?thesis
    unfolding keys using differ_by_member [OF a b] by (intro conjI refl)
qed


text \<open>When the handler of the route rejects, \<open>onDone\<close> adds one failure envelope,
  \<open><fnName> failed to execute\<close>, after whatever the handler wrote to \<open>res\<close>; the
  envelope does not depend on the thrown value.\<close>

lemma handler_exception_adds_envelope:
  assumes "map_of (managers this) moduleName = Some module"
    and "map_of (methods module) fnName = Some f"
    and "invoke f (JObj (handler_data (js_or (r_body req) (JObj [])) results)) (responses w)
           = (Rejected err, written)"
  shows "onDone this now moduleName fnName req results w =
     \<lparr>responses = written @ [failure_envelope now (fnName @ '' failed to execute'')],
      trace = trace w @
        [HandlerInvoked fnName (JObj (handler_data (js_or (r_body req) (JObj [])) results))]\<rparr>"
  using assms
  by (simp add: onDone_def exec_def settle_def Let_def respond_failed_to_execute)

text \<open>
  C8 at a handler that answers on \<open>res\<close> itself and then throws: \<open>_exec\<close> catches the
  exception, and \<open>onDone\<close> sends the failure envelope on the response that the handler
  has already answered, so the response gets two writes, not exactly one failure
  envelope.
\<close>

theorem failure_envelope_after_handler_write:
  "onDone export_api ''2026-02-25T12:00:00.000Z'' ''export'' ''download''
      (demo_request ''GET'' ''export'' ''download'' (JObj [(''id'', JNum 7)])) [] fresh =
     \<lparr>responses =
        [\<lparr>w_status = JNum 200, w_body = JStr ''id,name''\<rparr>,
         failure_envelope ''2026-02-25T12:00:00.000Z'' ''download failed to execute''],
      trace = [HandlerInvoked ''download'' (JObj [(''id'', JNum 7), (''res'', JRes)])]\<rparr>
   \<and> mw no_such_property export_api ''2026-02-25T12:00:00.000Z''
        (demo_request ''GET'' ''export'' ''download'' (JObj [(''id'', JNum 7)])) fresh =
     Some \<lparr>responses =
        [\<lparr>w_status = JNum 200, w_body = JStr ''id,name''\<rparr>,
         failure_envelope ''2026-02-25T12:00:00.000Z'' ''download failed to execute''],
      trace = [HandlerInvoked ''download'' (JObj [(''id'', JNum 7), (''res'', JRes)])]\<rparr>"
  by (simp add: run_unfold export_api_def export_manager_def demo_request_def fresh_def
        failed_to_execute_def respond_def dispatch_unfold failure_envelope_def)

text \<open>
  C10. The argument object built for the handler always binds \<open>res\<close> to the response
  object, whatever the body and the middleware results hold under that name; \<open>onDone\<close>
  calls the handler of the route on this very object, and what the handler writes to the
  response stays in it, before the envelope of its outcome.
\<close>

theorem handler_data_has_res:
  "map_of (handler_data body results) ''res'' = Some JRes
   \<and> (\<forall>module f.
         map_of (managers this) moduleName = Some module \<and>
         map_of (methods module) fnName = Some f \<longrightarrow>
         onDone this now moduleName fnName req results w =
           \<lparr>responses =
              respond now
                (snd (invoke f (JObj (handler_data (js_or (r_body req) (JObj [])) results))
                        (responses w)))
                (settle fnName
                   (fst (invoke f (JObj (handler_data (js_or (r_body req) (JObj [])) results))
                           (responses w)))),
            trace = trace w @ [HandlerInvoked fnName
                        (JObj (handler_data (js_or (r_body req) (JObj [])) results))]\<rparr>)"
  by (auto simp add: handler_data_def map_of_update_self onDone_def exec_def Let_def)

theorem handler_data_has_res_witness:
  "map_of (handler_data (JObj [(''res'', JStr ''mine''), (''name'', JStr ''Foo'')])
             [(''__A'', JNum 1)]) ''res'' = Some JRes
   \<and> onDone demo_api ''2026-02-25T12:00:00.000Z'' ''thing'' ''createThing''
        (demo_request ''POST'' ''thing'' ''createThing''
           (JObj [(''res'', JStr ''mine''), (''name'', JStr ''Foo'')]))
        [(''__A'', JNum 1)] fresh =
     \<lparr>responses =
        [\<lparr>w_status = JNum 200,
          w_body = JObj [(''ok'', JBool True), (''code'', JNum 200),
            (''data'', JObj [(''received'',
               JObj [(''res'', JRes), (''name'', JStr ''Foo''), (''__A'', JNum 1)])]),
            (''timestamp'', JStr ''2026-02-25T12:00:00.000Z'')]\<rparr>],
      trace = [HandlerInvoked ''createThing''
        (JObj [(''res'', JRes), (''name'', JStr ''Foo''), (''__A'', JNum 1)])]\<rparr>"
  using handler_data_has_res [where body = "JObj [(''res'', JStr ''mine''), (''name'', JStr ''Foo'')]"
      and results = "[(''__A'', JNum 1)]" and this = demo_api and moduleName = "''thing''"
      and fnName = "''createThing''" and now = "''2026-02-25T12:00:00.000Z''"
      and req = "demo_request ''POST'' ''thing'' ''createThing''
         (JObj [(''res'', JStr ''mine''), (''name'', JStr ''Foo'')])" and w = fresh]
  by (simp add: demo_api_def thing_manager_def fresh_def demo_request_def handler_data_def
        spread_def js_or_def settle_def respond_def dispatch_unfold)
section \<open>Properties of the route table construction\<close>

text \<open>
  C4. If a manager that is scanned lists an exposure declaration whose method name is not
  a method of that manager, the construction of the handler ends with an error and yields
  no route table.
\<close>

theorem missing_method_aborts_startup:
  assumes "map_of ms moduleName = Some module"
    and "httpExposed module = Some defs"
    and "methodDef \<in> set defs"
    and "map_of (methods module) (snd (parse_methodDef methodDef)) = None"
  shows "\<exists>e. new_ApiHandler ms repo = Inl e"
proof (rule scan_fails_when_declaration_fails [OF assms(1,2,3)])
  fix t
  assume "inputs_kept ms repo t"
  with assms(1,4) show "\<exists>e. expose_method moduleName methodDef t = Inl e"
    by (auto simp add: expose_method_def inputs_kept_def getParamNames_def Let_def
          split: option.splits looked_up.splits)
qed

theorem missing_method_aborts_startup_witness:
  "\<exists>e. new_ApiHandler [(''thing'', thing_manager), (''ghost'', ghost_manager)] demo_repo = Inl e"
proof -
  have h1: "map_of [(''thing'', thing_manager), (''ghost'', ghost_manager)] ''ghost''
      = Some ghost_manager"
    by simp
  have h2: "httpExposed ghost_manager = Some [''get=missing'']"
    by (simp add: ghost_manager_def)
  have h3: "''get=missing'' \<in> set [''get=missing'']"
    by simp
  have h4: "map_of (methods ghost_manager) (snd (parse_methodDef ''get=missing'')) = None"
    by (simp add: ghost_manager_def)
  show ?thesis
    using missing_method_aborts_startup [OF h1 h2 h3 h4] by blast
qed

text \<open>A marked parameter that the registry lookup does not find aborts the
  construction, the scan of that parameter throwing the message that names it and the
  route.\<close>

lemma unregistered_middleware_aborts:
  assumes "map_of ms moduleName = Some module"
    and "httpExposed module = Some defs"
    and "methodDef \<in> set defs"
    and "map_of (methods module) (snd (parse_methodDef methodDef)) = Some f"
    and "param \<in> set (map clean_param (split_on CHR '','' (declared_params f)))"
    and "startsWith param ''__''"
    and "plain_get repo param = Absent"
  shows "(\<exists>e. new_ApiHandler ms repo = Inl e)
     \<and> (\<forall>this. mwsRepo this = repo \<longrightarrow>
           attach_mw moduleName (snd (parse_methodDef methodDef)) param this =
             Inl (Thrown (''Unable to find middleware '' @ param @ '' for ''
                          @ moduleName @ ''.'' @ snd (parse_methodDef methodDef))))"
proof (intro conjI)
  show "\<exists>e. new_ApiHandler ms repo = Inl e"
  proof (rule scan_fails_when_declaration_fails [OF assms(1,2,3)])
    fix t
    assume t: "inputs_kept ms repo t"
    show "\<exists>e. expose_method moduleName methodDef t = Inl e"
    proof (cases "expose_method moduleName methodDef t")
      case (Inl e)
      then show ?thesis by blast
    next
      case (Inr t')
      from expose_method_success [OF Inr] t assms(1,4)
      have run: "forEach (attach_mw moduleName (snd (parse_methodDef methodDef)))
          (map clean_param (split_on CHR '','' (declared_params f)))
          (t\<lparr>methodMatrix := AList.map_entry moduleName
             (push_method (fst (parse_methodDef methodDef)) (snd (parse_methodDef methodDef)))
             (methodMatrix t)\<rparr>) = Inr t'"
        by (auto simp add: inputs_kept_def)
      from t have start: "inputs_kept ms repo
          (t\<lparr>methodMatrix := AList.map_entry moduleName
             (push_method (fst (parse_methodDef methodDef)) (snd (parse_methodDef methodDef)))
             (methodMatrix t)\<rparr>)"
        by (simp add: inputs_kept_def)
      have "\<exists>e. forEach (attach_mw moduleName (snd (parse_methodDef methodDef)))
          (map clean_param (split_on CHR '','' (declared_params f)))
          (t\<lparr>methodMatrix := AList.map_entry moduleName
             (push_method (fst (parse_methodDef methodDef)) (snd (parse_methodDef methodDef)))
             (methodMatrix t)\<rparr>) = Inl e"
      proof (rule forEach_fails [where I = "inputs_kept ms repo", OF assms(5) start])
        fix y u u'
        assume "inputs_kept ms repo u"
          and "attach_mw moduleName (snd (parse_methodDef methodDef)) y u = Inr u'"
        then show "inputs_kept ms repo u'" by (rule attach_mw_keeps)
      next
        fix u
        assume "inputs_kept ms repo u"
        with assms(6,7)
        show "\<exists>e. attach_mw moduleName (snd (parse_methodDef methodDef)) param u = Inl e"
          by (simp add: attach_mw_missing inputs_kept_def)
      qed
      with run show ?thesis by simp
    qed
  qed
next
  from assms(6,7) show "\<forall>this. mwsRepo this = repo \<longrightarrow>
           attach_mw moduleName (snd (parse_methodDef methodDef)) param this =
             Inl (Thrown (''Unable to find middleware '' @ param @ '' for ''
                          @ moduleName @ ''.'' @ snd (parse_methodDef methodDef)))"
    by (simp add: attach_mw_missing)
qed

lemma constructor_names_missing_middleware:
  "new_ApiHandler [(''thing'', thing_manager), (''audit'', audit_manager)] demo_repo =
     Inl (Thrown ''Unable to find middleware __audit for audit.listAudits'')"
  by (simp add: build_unfold thing_manager_def audit_manager_def demo_repo_def)

text \<open>
  C7 at a method that declares the parameter \<open>__proto__\<close>, with an empty registry: the
  name is not in the registry, yet the lookup finds the inherited \<open>Object.prototype\<close>,
  nothing is thrown, and the construction yields a handler whose stack for the route
  holds the unresolved name.
\<close>

theorem inherited_middleware_name_accepted:
  "map (marked_params \<circ> snd) (methods probe_manager) = [[''__proto__'']]
   \<and> map_of ([] :: (string \<times> mw_unit) list) ''__proto__'' = None
   \<and> built_stacks (new_ApiHandler [(''probe'', probe_manager)] []) =
       Some [(''probe.probe'', [''__proto__''])]"
  by (simp add: build_unfold probe_manager_def built_stacks_def marked_params_def)

text \<open>
  C6 at a module that exposes \<open>listSchools(page, __A)\<close> under two verbs: the stack recorded
  under \<open>school.listSchools\<close> is \<open>[__A, __A]\<close>, while the marked parameters of the method
  are \<open>[__A]\<close>.
\<close>

theorem stack_doubled_for_two_verbs:
  "built_stacks (new_ApiHandler [(''school'', school_manager)] demo_repo) =
     Some [(''school.listSchools'', [''__A'', ''__A''])]
   \<and> map (marked_params \<circ> snd) (methods school_manager) = [[''__A'']]"
  by (simp add: build_unfold school_manager_def demo_repo_def built_stacks_def marked_params_def)

section \<open>The store constructor and the handler object\<close>

lemmas store_unfold = put_def save_def load_def managers_at_def registry_at_def matrix_at_def
  stacks_at_def sound_refs_def

lemma save_save: "save this t' (save this t st) = save this t' st"
  by (simp add: put_def save_def fun_upd_twist)

lemma sound_save: "sound_refs this st \<Longrightarrow> sound_refs this (save this t st)"
  by (simp add: store_unfold)

lemma load_save:
  assumes "sound_refs this st"
    and "managers t = managers (load this st)" and "mwsRepo t = mwsRepo (load this st)"
  shows "load this (save this t st) = t"
  using assms by (simp add: store_unfold)

lemma save_put_matrix:
  "save this t (put (methodMatrix_ref this) c st) = save this t st"
  by (simp add: put_def save_def)

lemma attach_mw_sim:
  assumes "sound_refs this st"
  shows "attach_mw_at this moduleName managerMethod param st =
           lift this st (attach_mw moduleName managerMethod param (load this st))"
  using assms
  by (auto simp add: attach_mw_at_def attach_mw_def lift_def store_unfold Let_def
        fun_upd_idem fun_upd_twist)

lemma forEach_sim:
  assumes step: "\<And>x s. sound_refs this s \<Longrightarrow> f_at x s = lift this s (f x (load this s))"
    and kept: "\<And>x t t'. f x t = Inr t' \<Longrightarrow> managers t' = managers t \<and> mwsRepo t' = mwsRepo t"
    and sound: "sound_refs this st"
  shows "forEach f_at xs st = lift this st (forEach f xs (load this st))"
  using sound
proof (induction xs arbitrary: st)
  case Nil
  then show ?case
    by (simp add: lift_def store_unfold fun_upd_idem)
next
  case (Cons x xs)
  show ?case
  proof (cases "f x (load this st)")
    case (Inl e)
    with step [OF Cons.prems] show ?thesis by (simp add: lift_def)
  next
    case (Inr t)
    from kept [OF Inr] have same: "managers t = managers (load this st)"
      "mwsRepo t = mwsRepo (load this st)" by simp_all
    have reload: "load this (save this t st) = t"
      by (rule load_save [OF Cons.prems same])
    from step [OF Cons.prems] Inr have first: "f_at x st = Inr (save this t st)"
      by (simp add: lift_def)
    from Cons.IH [OF sound_save [OF Cons.prems]] reload
    have "forEach f_at xs (save this t st) = lift this (save this t st) (forEach f xs t)"
      by simp
    with first Inr show ?thesis
      by (simp add: lift_def save_save split: sum.splits)
  qed
qed

lemma attach_mw_same_inputs:
  "attach_mw moduleName managerMethod param t = Inr t' \<Longrightarrow>
     managers t' = managers t \<and> mwsRepo t' = mwsRepo t"
  using attach_mw_keeps [of "managers t" "mwsRepo t" t moduleName managerMethod param t']
  by (simp add: inputs_kept_def)

lemma expose_method_same_inputs:
  "expose_method moduleName methodDef t = Inr t' \<Longrightarrow>
     managers t' = managers t \<and> mwsRepo t' = mwsRepo t"
  using expose_method_keeps [of "managers t" "mwsRepo t" t moduleName methodDef t']
  by (simp add: inputs_kept_def)

lemma scan_manager_same_inputs:
  "scan_manager moduleName t = Inr t' \<Longrightarrow>
     managers t' = managers t \<and> mwsRepo t' = mwsRepo t"
  using scan_manager_keeps [of "managers t" "mwsRepo t" t moduleName t']
  by (simp add: inputs_kept_def)

lemma lift_put_matrix:
  "lift this (put (methodMatrix_ref this) c st) r = lift this st r"
  by (simp add: lift_def save_put_matrix split: sum.splits)

lemma sound_put_matrix:
  "sound_refs this st \<Longrightarrow> sound_refs this (put (methodMatrix_ref this) (Matrix m) st)"
  by (simp add: store_unfold)

lemma load_put_matrix:
  "sound_refs this st \<Longrightarrow>
     load this (put (methodMatrix_ref this) (Matrix m) st) = (load this st)\<lparr>methodMatrix := m\<rparr>"
  by (simp add: store_unfold)

lemma expose_method_sim:
  assumes sound: "sound_refs this st"
  shows "expose_method_at this moduleName methodDef st =
           lift this st (expose_method moduleName methodDef (load this st))"
proof -
  let ?mm = "snd (parse_methodDef methodDef)"
  let ?m = "AList.map_entry moduleName (push_method (fst (parse_methodDef methodDef)) ?mm)
              (matrix_at st (methodMatrix_ref this))"
  let ?st1 = "put (methodMatrix_ref this) (Matrix ?m) st"
  have inner: "forEach (attach_mw_at this moduleName ?mm) ps ?st1 =
      lift this st (forEach (attach_mw moduleName ?mm) ps ((load this st)\<lparr>methodMatrix := ?m\<rparr>))"
    for ps
    using forEach_sim [where f_at = "attach_mw_at this moduleName ?mm"
        and f = "attach_mw moduleName ?mm" and this = this and st = ?st1 and xs = ps,
        OF attach_mw_sim attach_mw_same_inputs sound_put_matrix [OF sound]]
    by (simp add: load_put_matrix [OF sound] lift_put_matrix)
  have m: "methodMatrix (load this st) = matrix_at st (methodMatrix_ref this)"
    and ms: "managers (load this st) = managers_at st (managers_ref this)"
    by (simp_all add: load_def)
  show ?thesis
    by (simp add: expose_method_at_def expose_method_def Let_def m ms inner lift_def
          split: option.splits looked_up.splits sum.splits)
qed

lemma scan_manager_sim:
  assumes sound: "sound_refs this st"
  shows "scan_manager_at this moduleName st =
           lift this st (scan_manager moduleName (load this st))"
proof -
  let ?m = "AList.update moduleName [] (matrix_at st (methodMatrix_ref this))"
  let ?st1 = "put (methodMatrix_ref this) (Matrix ?m) st"
  have inner: "forEach (expose_method_at this moduleName) defs ?st1 =
      lift this st (forEach (expose_method moduleName) defs ((load this st)\<lparr>methodMatrix := ?m\<rparr>))"
    for defs
    using forEach_sim [where f_at = "expose_method_at this moduleName"
        and f = "expose_method moduleName" and this = this and st = ?st1 and xs = defs,
        OF expose_method_sim expose_method_same_inputs sound_put_matrix [OF sound]]
    by (simp add: load_put_matrix [OF sound] lift_put_matrix)
  have m: "methodMatrix (load this st) = matrix_at st (methodMatrix_ref this)"
    and ms: "managers (load this st) = managers_at st (managers_ref this)"
    by (simp_all add: load_def)
  from sound have same: "save this (load this st) st = st"
    by (simp add: store_unfold fun_upd_idem)
  show ?thesis
    by (simp add: scan_manager_at_def scan_manager_def Let_def m ms inner lift_def same
          split: option.splits sum.splits)
qed

text \<open>On a store that holds the two inputs, the constructor yields what the scan of the
  handler object yields: the same error, or the store extended by the two tables.\<close>

lemma construct_at_refines:
  assumes m: "cells st m = Some (Managers ms)" and r: "cells st r = Some (Registry repo)"
    and ml: "m < next_free st" and rl: "r < next_free st"
  shows "construct_at st m r =
     (case new_ApiHandler ms repo of
        Inl e \<Rightarrow> Inl e
      | Inr t \<Rightarrow>
          Inr (\<lparr>managers_ref = m, mwsRepo_ref = r, methodMatrix_ref = next_free st,
                mwsStack_ref = Suc (next_free st)\<rparr>,
               \<lparr>cells = (cells st)(next_free st \<mapsto> Matrix (methodMatrix t),
                                   Suc (next_free st) \<mapsto> Stacks (mwsStack t)),
                next_free = Suc (Suc (next_free st))\<rparr>))"
proof -
  let ?h = "\<lparr>managers_ref = m, mwsRepo_ref = r, methodMatrix_ref = next_free st,
                mwsStack_ref = Suc (next_free st)\<rparr>"
  let ?st0 = "alloc (Stacks []) (alloc (Matrix []) st)"
  from ml rl have sound: "sound_refs ?h ?st0"
    by (simp add: store_unfold alloc_def)
  from m r ml rl have init: "load ?h ?st0 =
      \<lparr>managers = ms, mwsRepo = repo, methodMatrix = [], mwsStack = []\<rparr>"
    by (simp add: store_unfold alloc_def)
  from m ml have keys: "managers_at ?st0 m = ms"
    by (simp add: managers_at_def alloc_def)
  have run: "forEach (scan_manager_at ?h) (map fst ms) ?st0 =
      lift ?h ?st0 (new_ApiHandler ms repo)"
    using forEach_sim [where f_at = "scan_manager_at ?h" and f = scan_manager
        and this = ?h and st = ?st0 and xs = "map fst ms",
        OF scan_manager_sim scan_manager_same_inputs sound]
    by (simp add: init new_ApiHandler_def)
  have saved: "save ?h t ?st0 =
      \<lparr>cells = (cells st)(next_free st \<mapsto> Matrix (methodMatrix t),
                          Suc (next_free st) \<mapsto> Stacks (mwsStack t)),
       next_free = Suc (Suc (next_free st))\<rparr>" for t
    by (simp add: save_def put_def alloc_def)
  show ?thesis
    by (simp add: construct_at_def Let_def keys run lift_def saved split: sum.splits)
qed

text \<open>
  C9. On a store that holds the managers object and the registry, a construction that
  succeeds leaves every object that existed before, the two inputs among them, as it was;
  its tables are the method matrix and the stacks that the scan of the managers yields; and
  a second construction from the same two inputs, run on the store that the first one
  left, succeeds with its own tables, equal to those of the first, and leaves the tables
  of the first as they were.
\<close>

theorem construction_repeatable:
  assumes "cells st m = Some (Managers ms)" and "cells st r = Some (Registry repo)"
    and "m < next_free st" and "r < next_free st"
    and "construct_at st m r = Inr (this, st')"
  shows "(\<forall>a. a < next_free st \<longrightarrow> cells st' a = cells st a)
     \<and> (\<exists>t. new_ApiHandler ms repo = Inr t \<and>
            matrix_at st' (methodMatrix_ref this) = methodMatrix t \<and>
            stacks_at st' (mwsStack_ref this) = mwsStack t)
     \<and> (\<exists>this2 st2.
            construct_at st' m r = Inr (this2, st2) \<and>
            methodMatrix_ref this2 \<noteq> methodMatrix_ref this \<and>
            mwsStack_ref this2 \<noteq> mwsStack_ref this \<and>
            matrix_at st2 (methodMatrix_ref this2) = matrix_at st' (methodMatrix_ref this) \<and>
            stacks_at st2 (mwsStack_ref this2) = stacks_at st' (mwsStack_ref this) \<and>
            (\<forall>a. a < next_free st' \<longrightarrow> cells st2 a = cells st' a))"
proof -
  from assms(5) construct_at_refines [OF assms(1-4)]
  obtain t where t: "new_ApiHandler ms repo = Inr t"
    and refs: "this = \<lparr>managers_ref = m, mwsRepo_ref = r, methodMatrix_ref = next_free st,
                       mwsStack_ref = Suc (next_free st)\<rparr>"
    and st': "st' = \<lparr>cells = (cells st)(next_free st \<mapsto> Matrix (methodMatrix t),
                                       Suc (next_free st) \<mapsto> Stacks (mwsStack t)),
                     next_free = Suc (Suc (next_free st))\<rparr>"
    by (auto split: sum.splits)
  from assms(1-4) st' have again: "cells st' m = Some (Managers ms)"
    "cells st' r = Some (Registry repo)" "m < next_free st'" "r < next_free st'"
    by simp_all
  have frame: "\<forall>a. a < next_free st \<longrightarrow> cells st' a = cells st a"
    by (simp add: st')
  have tables: "matrix_at st' (methodMatrix_ref this) = methodMatrix t"
    "stacks_at st' (mwsStack_ref this) = mwsStack t"
    by (simp_all add: refs st' matrix_at_def stacks_at_def)
  let ?h2 = "\<lparr>managers_ref = m, mwsRepo_ref = r, methodMatrix_ref = next_free st',
                  mwsStack_ref = Suc (next_free st')\<rparr>"
  let ?st2 = "\<lparr>cells = (cells st')(next_free st' \<mapsto> Matrix (methodMatrix t),
                                   Suc (next_free st') \<mapsto> Stacks (mwsStack t)),
               next_free = Suc (Suc (next_free st'))\<rparr>"
  from construct_at_refines [OF again] t
  have second: "construct_at st' m r = Inr (?h2, ?st2)"
    by simp
  have "methodMatrix_ref ?h2 \<noteq> methodMatrix_ref this \<and>
      mwsStack_ref ?h2 \<noteq> mwsStack_ref this \<and>
      matrix_at ?st2 (methodMatrix_ref ?h2) = matrix_at st' (methodMatrix_ref this) \<and>
      stacks_at ?st2 (mwsStack_ref ?h2) = stacks_at st' (mwsStack_ref this) \<and>
      (\<forall>a. a < next_free st' \<longrightarrow> cells ?st2 a = cells st' a)"
    by (simp add: tables) (simp add: refs st' matrix_at_def stacks_at_def)
  with second frame t tables show ?thesis by blast
qed

theorem construction_repeatable_witness:
  "\<exists>this st'.
      construct_at demo_store 0 1 = Inr (this, st') \<and>
      cells st' 0 = Some (Managers [(''thing'', thing_manager)]) \<and>
      cells st' 1 = Some (Registry demo_repo) \<and>
      (\<exists>this2 st2.
          construct_at st' 0 1 = Inr (this2, st2) \<and>
          matrix_at st2 (methodMatrix_ref this2) =
            [(''thing'', [(''post'', [''createThing'']), (''get'', [''getThing''])])] \<and>
          stacks_at st2 (mwsStack_ref this2) =
            [(''thing.createThing'', [''__A'', ''__B'', ''__C'']), (''thing.getThing'', [])])"
proof -
  have h1: "cells demo_store 0 = Some (Managers [(''thing'', thing_manager)])"
    and h2: "cells demo_store 1 = Some (Registry demo_repo)"
    and h3: "0 < next_free demo_store" and h4: "1 < next_free demo_store"
    by (simp_all add: demo_store_def)
  from construct_at_refines [OF h1 h2 h3 h4] demo_api_built
  obtain h s1 where h5: "construct_at demo_store 0 1 = Inr (h, s1)"
    by simp
  from construction_repeatable [OF h1 h2 h3 h4 h5]
  obtain t h' s2 where frame: "\<forall>a. a < next_free demo_store \<longrightarrow> cells s1 a = cells demo_store a"
    and t: "new_ApiHandler [(''thing'', thing_manager)] demo_repo = Inr t"
    and first: "matrix_at s1 (methodMatrix_ref h) = methodMatrix t"
      "stacks_at s1 (mwsStack_ref h) = mwsStack t"
    and second: "construct_at s1 0 1 = Inr (h', s2)"
      "matrix_at s2 (methodMatrix_ref h') = matrix_at s1 (methodMatrix_ref h)"
      "stacks_at s2 (mwsStack_ref h') = stacks_at s1 (mwsStack_ref h)"
    by blast
  from t demo_api_built have "t = demo_api" by simp
  with first second have tables:
    "matrix_at s2 (methodMatrix_ref h') =
       [(''thing'', [(''post'', [''createThing'']), (''get'', [''getThing''])])]"
    "stacks_at s2 (mwsStack_ref h') =
       [(''thing.createThing'', [''__A'', ''__B'', ''__C'']), (''thing.getThing'', [])]"
    by (simp_all add: demo_api_def)
  from frame h1 h2 h3 h4 have kept: "cells s1 0 = Some (Managers [(''thing'', thing_manager)])"
    "cells s1 1 = Some (Registry demo_repo)"
    by simp_all
  from h5 kept second(1) tables show ?thesis by blast
qed

end
